theory Spec2Isabelle
  imports Complex_Main "HOL-Library.Multiset"
begin

section \<open>Logistic regression on SUSY: the notebook's functions\<close>

text \<open>
  The notebook \<^verbatim>\<open>Lecture2/Logistic Regression.ipynb\<close> defines \<^verbatim>\<open>sigmoid\<close>,
  \<^verbatim>\<open>gradient\<close>, \<^verbatim>\<open>loss\<close> and \<^verbatim>\<open>accuracy\<close> over numpy arrays and runs a
  gradient-descent loop. This theory embeds them together with the part of numpy they
  rest on: shapes, broadcasting, \<^verbatim>\<open>np.dot\<close>, in-place addition.

  Numbers: in the embedding of the arrays a float64 is an exact real. Rounding, overflow
  and underflow of float64 arithmetic are outside that embedding; where numpy would
  produce \<^verbatim>\<open>inf\<close> or \<^verbatim>\<open>nan\<close> from real operands (division by zero, logarithm of a
  non-positive number) it stops with the outcome \<open>NonFinite\<close>. It carries the
  properties of shapes, control flow and algebraic form. Where rounding decides a
  property, the functions concerned are embedded a second time over float64 numbers
  (the section on float64 arithmetic below).
\<close>

subsection \<open>Arrays and Python values\<close>

text \<open>
  Arrays of rank at most two. \<open>Scalar\<close> is a numpy scalar (\<^verbatim>\<open>np.float64\<close>, shape
  \<^verbatim>\<open>()\<close>), \<open>Vec xs\<close> has shape \<^verbatim>\<open>(len xs,)\<close>, and \<open>Mat c rows\<close> has shape
  \<^verbatim>\<open>(len rows, c)\<close>: the column count is kept beside the rows so that a matrix without
  rows still has one.
\<close>

datatype ndarray = Scalar real | Vec "real list" | Mat nat "real list list"

text \<open>A Python number (\<^verbatim>\<open>int\<close> or \<^verbatim>\<open>float\<close>) or a numpy value.\<close>

datatype pyval = PyNum real | Np ndarray

text \<open>
  The first three are Python exceptions. \<open>NonFinite\<close> is no exception: numpy warns and
  goes on with \<^verbatim>\<open>inf\<close> or \<^verbatim>\<open>nan\<close>, which no real number models.
\<close>

datatype error = ValueError | IndexError | ZeroDivisionError | NonFinite

definition bindE :: "error + 'a \<Rightarrow> ('a \<Rightarrow> error + 'b) \<Rightarrow> error + 'b" where
  "bindE m f = (case m of Inl e \<Rightarrow> Inl e | Inr v \<Rightarrow> f v)"

fun wellformed :: "ndarray \<Rightarrow> bool" where
  "wellformed (Scalar x) = True"
| "wellformed (Vec xs) = True"
| "wellformed (Mat c rows) = list_all (\<lambda>r. length r = c) rows"

fun shape :: "ndarray \<Rightarrow> nat list" where
  "shape (Scalar x) = []"
| "shape (Vec xs) = [length xs]"
| "shape (Mat c rows) = [length rows, c]"

text \<open>\<^verbatim>\<open>a.size\<close>: the number of elements.\<close>

fun size_of :: "ndarray \<Rightarrow> nat" where
  "size_of (Scalar x) = 1"
| "size_of (Vec xs) = length xs"
| "size_of (Mat c rows) = length rows * c"

text \<open>The elements in row-major order (\<^verbatim>\<open>a.ravel()\<close>).\<close>

fun ravel :: "ndarray \<Rightarrow> real list" where
  "ravel (Scalar x) = [x]"
| "ravel (Vec xs) = xs"
| "ravel (Mat c rows) = concat rows"

text \<open>
  An elementwise function of one array: unary minus, \<^verbatim>\<open>np.exp\<close>, \<^verbatim>\<open>np.sign\<close>,
  \<^verbatim>\<open>np.round\<close>, and an operator between an array and a Python number.
\<close>

fun amap :: "(real \<Rightarrow> real) \<Rightarrow> ndarray \<Rightarrow> ndarray" where
  "amap f (Scalar x) = Scalar (f x)"
| "amap f (Vec xs) = Vec (map f xs)"
| "amap f (Mat c rows) = Mat c (map (map f) rows)"

subsection \<open>Broadcasting\<close>

text \<open>
  Shapes are aligned at the right and padded with ones at the left; two dimensions are
  compatible when they are equal or one of them is 1. An array of rank below two is
  viewed as a matrix with one row.
\<close>

fun rank :: "ndarray \<Rightarrow> nat" where
  "rank (Scalar x) = 0"
| "rank (Vec xs) = 1"
| "rank (Mat c rows) = 2"

fun nrows2 :: "ndarray \<Rightarrow> nat" where
  "nrows2 (Scalar x) = 1"
| "nrows2 (Vec xs) = 1"
| "nrows2 (Mat c rows) = length rows"

fun ncols2 :: "ndarray \<Rightarrow> nat" where
  "ncols2 (Scalar x) = 1"
| "ncols2 (Vec xs) = length xs"
| "ncols2 (Mat c rows) = c"

fun rows2 :: "ndarray \<Rightarrow> real list list" where
  "rows2 (Scalar x) = [[x]]"
| "rows2 (Vec xs) = [xs]"
| "rows2 (Mat c rows) = rows"

definition bdim :: "nat \<Rightarrow> nat \<Rightarrow> nat option" where
  "bdim a b = (if a = b then Some a else if a = 1 then Some b
               else if b = 1 then Some a else None)"

text \<open>Stretching a dimension of length 1 to the broadcast length \<open>t\<close>.\<close>

definition stretch :: "nat \<Rightarrow> 'a list \<Rightarrow> 'a list" where
  "stretch t xs = (if length xs = t then xs else replicate t (hd xs))"

text \<open>The array of rank \<open>k\<close> whose matrix view has the rows \<open>rows\<close> of \<open>c\<close> columns.\<close>

definition mk :: "nat \<Rightarrow> nat \<Rightarrow> real list list \<Rightarrow> ndarray" where
  "mk k c rows = (if k = 0 then Scalar (hd (hd rows))
                  else if k = 1 then Vec (hd rows)
                  else Mat c rows)"

text \<open>
  A binary operator between two numpy values, \<^verbatim>\<open>a + b\<close>, \<^verbatim>\<open>a - b\<close>, \<^verbatim>\<open>a * b\<close>:
  ValueError when the shapes cannot be broadcast together.
\<close>

definition binop :: "(real \<Rightarrow> real \<Rightarrow> real) \<Rightarrow> ndarray \<Rightarrow> ndarray \<Rightarrow> error + ndarray" where
  "binop f a b =
     (case (bdim (nrows2 a) (nrows2 b), bdim (ncols2 a) (ncols2 b)) of
        (Some r, Some c) \<Rightarrow>
          Inr (mk (max (rank a) (rank b)) c
                 (map2 (map2 f) (stretch r (map (stretch c) (rows2 a)))
                                (stretch r (map (stretch c) (rows2 b)))))
      | _ \<Rightarrow> Inl ValueError)"

text \<open>
  \<^verbatim>\<open>g += r\<close> with \<open>r\<close> a numpy value. A Python number and a numpy scalar are immutable:
  the statement rebinds \<open>g\<close> to \<^verbatim>\<open>g + r\<close>. An array is updated in place, which numpy
  refuses (ValueError) unless the broadcast shape is the shape of \<open>g\<close> itself.
\<close>

fun iadd :: "pyval \<Rightarrow> ndarray \<Rightarrow> error + ndarray" where
  "iadd (PyNum c) r = Inr (amap (\<lambda>x. c + x) r)"
| "iadd (Np (Scalar a)) r = binop (+) (Scalar a) r"
| "iadd (Np g) r =
     bindE (binop (+) g r) (\<lambda>s. if shape s = shape g then Inr s else Inl ValueError)"

text \<open>\<^verbatim>\<open>g + r\<close>, as the builtin \<^verbatim>\<open>sum\<close> applies it.\<close>

fun py_add :: "pyval \<Rightarrow> ndarray \<Rightarrow> error + ndarray" where
  "py_add (PyNum c) r = Inr (amap (\<lambda>x. c + x) r)"
| "py_add (Np a) r = binop (+) a r"

text \<open>
  \<^verbatim>\<open>v / n\<close> with \<open>n\<close> a Python int (a \<^verbatim>\<open>size\<close>): Python raises on a zero divisor
  when \<open>v\<close> is a Python number; numpy returns \<^verbatim>\<open>nan\<close> or \<^verbatim>\<open>inf\<close>.
\<close>

fun py_truediv :: "pyval \<Rightarrow> nat \<Rightarrow> error + pyval" where
  "py_truediv (PyNum a) n =
     (if n = 0 then Inl ZeroDivisionError else Inr (PyNum (a / real n)))"
| "py_truediv (Np a) n =
     (if n = 0 then Inl NonFinite else Inr (Np (amap (\<lambda>x. x / real n) a)))"

fun py_sub :: "pyval \<Rightarrow> pyval \<Rightarrow> error + pyval" where
  "py_sub (PyNum a) (PyNum b) = Inr (PyNum (a - b))"
| "py_sub (PyNum a) (Np b) = Inr (Np (amap (\<lambda>x. a - x) b))"
| "py_sub (Np a) (PyNum b) = Inr (Np (amap (\<lambda>x. x - b) a))"
| "py_sub (Np a) (Np b) = map_sum id Np (binop (-) a b)"

text \<open>\<^verbatim>\<open>c / a\<close> with \<open>c\<close> a Python number: a zero element gives \<^verbatim>\<open>inf\<close> or \<^verbatim>\<open>nan\<close>.\<close>

definition rdiv :: "real \<Rightarrow> ndarray \<Rightarrow> error + ndarray" where
  "rdiv c a = (if list_ex (\<lambda>x. x = 0) (ravel a) then Inl NonFinite
               else Inr (amap (\<lambda>x. c / x) a))"

text \<open>\<^verbatim>\<open>np.log\<close>: \<^verbatim>\<open>-inf\<close> at 0 and \<^verbatim>\<open>nan\<close> below.\<close>

definition np_log :: "ndarray \<Rightarrow> error + ndarray" where
  "np_log a = (if list_ex (\<lambda>x. x \<le> 0) (ravel a) then Inl NonFinite
               else Inr (amap ln a))"

text \<open>\<^verbatim>\<open>np.round\<close> rounds to the nearest integer, a half to the even neighbour.\<close>

definition np_round :: "real \<Rightarrow> real" where
  "np_round x =
     (let f = \<lfloor>x\<rfloor>; r = x - of_int f
      in if r < 1 / 2 then of_int f
         else if 1 / 2 < r then of_int f + 1
         else if even f then of_int f else of_int f + 1)"

subsection \<open>Products, transposition, indexing, reshaping\<close>

definition inner :: "real list \<Rightarrow> real list \<Rightarrow> real" where
  "inner a b = sum_list (map2 (*) a b)"

definition column :: "real list list \<Rightarrow> nat \<Rightarrow> real list" where
  "column rows j = map (\<lambda>r. r ! j) rows"

text \<open>
  \<^verbatim>\<open>np.dot\<close>: a product with a scalar is elementwise; otherwise the last dimension of
  the first argument must be the first dimension of the second (ValueError).
\<close>

fun np_dot :: "ndarray \<Rightarrow> ndarray \<Rightarrow> error + ndarray" where
  "np_dot (Scalar a) B = Inr (amap (\<lambda>x. a * x) B)"
| "np_dot A (Scalar b) = Inr (amap (\<lambda>x. x * b) A)"
| "np_dot (Vec a) (Vec b) =
     (if length a = length b then Inr (Scalar (inner a b)) else Inl ValueError)"
| "np_dot (Mat c rows) (Vec b) =
     (if c = length b then Inr (Vec (map (\<lambda>r. inner r b) rows)) else Inl ValueError)"
| "np_dot (Vec a) (Mat c rows) =
     (if length a = length rows
      then Inr (Vec (map (\<lambda>j. inner a (column rows j)) [0..<c]))
      else Inl ValueError)"
| "np_dot (Mat c rows) (Mat c' rows') =
     (if c = length rows'
      then Inr (Mat c' (map (\<lambda>r. map (\<lambda>j. inner r (column rows' j)) [0..<c']) rows))
      else Inl ValueError)"

text \<open>\<^verbatim>\<open>a.T\<close>: only a matrix changes.\<close>

fun np_T :: "ndarray \<Rightarrow> ndarray" where
  "np_T (Mat c rows) = Mat (length rows) (map (column rows) [0..<c])"
| "np_T a = a"

text \<open>\<^verbatim>\<open>a.reshape(n, 1)\<close>: a column of \<open>n\<close> rows, when \<open>a\<close> has \<open>n\<close> elements.\<close>

definition reshape_col :: "nat \<Rightarrow> ndarray \<Rightarrow> error + ndarray" where
  "reshape_col n a =
     (if size_of a = n then Inr (Mat 1 (map (\<lambda>x. [x]) (ravel a))) else Inl ValueError)"

text \<open>\<^verbatim>\<open>a[i]\<close> for \<open>0 \<le> i\<close>, and \<^verbatim>\<open>a.shape[0]\<close>.\<close>

fun index0 :: "ndarray \<Rightarrow> nat \<Rightarrow> error + ndarray" where
  "index0 (Scalar x) i = Inl IndexError"
| "index0 (Vec xs) i = (if i < length xs then Inr (Scalar (xs ! i)) else Inl IndexError)"
| "index0 (Mat c rows) i = (if i < length rows then Inr (Vec (rows ! i)) else Inl IndexError)"

fun shape0 :: "ndarray \<Rightarrow> error + nat" where
  "shape0 (Scalar x) = Inl IndexError"
| "shape0 (Vec xs) = Inr (length xs)"
| "shape0 (Mat c rows) = Inr (length rows)"

fun shape1 :: "ndarray \<Rightarrow> error + nat" where
  "shape1 (Mat c rows) = Inr c"
| "shape1 a = Inl IndexError"

definition index_list :: "real list \<Rightarrow> nat \<Rightarrow> error + real" where
  "index_list ys i = (if i < length ys then Inr (ys ! i) else Inl IndexError)"

subsection \<open>The notebook's functions (cell 6)\<close>

text \<open>
  \<^verbatim>\<open>
  def sigmoid(X, w):
      return 1 / (1 + np.exp(-np.dot(X, w)))
  \<close>
\<close>

definition sigmoid :: "ndarray \<Rightarrow> ndarray \<Rightarrow> error + ndarray" where
  "sigmoid X w =
     bindE (np_dot X w) (\<lambda>z. rdiv 1 (amap (\<lambda>t. 1 + t) (amap exp (amap uminus z))))"

text \<open>
  \<^verbatim>\<open>
  def gradient(X, y, w, onept=False, norm=None, lamb=0):
      grad = 0
      if norm == 'l1':
          grad += lamb * np.sign(w)
      if norm == 'l2':
          grad += 2 * lamb * w
      if onept:
          grad += -((y - sigmoid(X, w)) * X).reshape(w.size, 1)
      else:
          grad += -np.dot(X.T, y - sigmoid(X, w)) / y.size
      return grad
  \<close>
  The argument \<^verbatim>\<open>norm\<close> (here \<open>nrm\<close>) is \<^verbatim>\<open>None\<close> or a string; \<open>lamb\<close> is a Python number.
\<close>

definition np_div_size :: "ndarray \<Rightarrow> nat \<Rightarrow> error + ndarray" where
  "np_div_size a n = (if n = 0 then Inl NonFinite else Inr (amap (\<lambda>x. x / real n) a))"

definition gradient ::
  "ndarray \<Rightarrow> ndarray \<Rightarrow> ndarray \<Rightarrow> bool \<Rightarrow> string option \<Rightarrow> real \<Rightarrow> error + ndarray" where
  "gradient X y w onept nrm lamb =
     bindE (if nrm = Some ''l1''
            then map_sum id Np (iadd (PyNum 0) (amap (\<lambda>x. lamb * x) (amap sgn w)))
            else Inr (PyNum 0)) (\<lambda>grad1.
     bindE (if nrm = Some ''l2''
            then map_sum id Np (iadd grad1 (amap (\<lambda>x. 2 * lamb * x) w))
            else Inr grad1) (\<lambda>grad2.
     if onept
     then bindE (sigmoid X w) (\<lambda>s.
          bindE (binop (-) y s) (\<lambda>d.
          bindE (binop (*) d X) (\<lambda>p.
          bindE (reshape_col (size_of w) p) (\<lambda>q.
          iadd grad2 (amap uminus q)))))
     else bindE (sigmoid X w) (\<lambda>s.
          bindE (binop (-) y s) (\<lambda>d.
          bindE (np_dot (np_T X) d) (\<lambda>p.
          bindE (np_div_size (amap uminus p) (size_of y)) (\<lambda>q.
          iadd grad2 q))))))"

text \<open>
  \<^verbatim>\<open>
  def loss(X, y, w, norm=None, lamb=0):
      sumcost = 0
      for i in range(X.shape[0]):
          sumcost += y[i] * np.log(sigmoid(X[i], w)) + (1 - y[i]) * np.log(1 - sigmoid(X[i], w))
      normcost = 0
      if norm == 'l1':
          normcost = lamb * np.sum(np.abs(w))
      if norm == 'l2':
          normcost = lamb * np.linalg.norm(w)**2
      return normcost - sumcost / y.size
  \<close>
  The label vector \<open>y\<close> is one-dimensional: a list.
\<close>

definition loss_term :: "ndarray \<Rightarrow> real list \<Rightarrow> ndarray \<Rightarrow> nat \<Rightarrow> error + ndarray" where
  "loss_term X y w i =
     bindE (index_list y i) (\<lambda>yi.
     bindE (index0 X i) (\<lambda>xi.
     bindE (sigmoid xi w) (\<lambda>s.
     bindE (np_log s) (\<lambda>l.
     bindE (sigmoid xi w) (\<lambda>s'.
     bindE (np_log (amap (\<lambda>t. 1 - t) s')) (\<lambda>l'.
     binop (+) (amap (\<lambda>t. yi * t) l) (amap (\<lambda>t. (1 - yi) * t) l')))))))"

fun loss_loop :: "ndarray \<Rightarrow> real list \<Rightarrow> ndarray \<Rightarrow> nat list \<Rightarrow> pyval \<Rightarrow> error + pyval" where
  "loss_loop X y w [] sumcost = Inr sumcost"
| "loss_loop X y w (i # is) sumcost =
     bindE (loss_term X y w i) (\<lambda>t.
     bindE (iadd sumcost t) (\<lambda>s. loss_loop X y w is (Np s)))"

definition loss :: "ndarray \<Rightarrow> real list \<Rightarrow> ndarray \<Rightarrow> string option \<Rightarrow> real \<Rightarrow> error + pyval" where
  "loss X y w nrm lamb =
     bindE (shape0 X) (\<lambda>n.
     bindE (loss_loop X y w [0..<n] (PyNum 0)) (\<lambda>sumcost.
     let normcost1 = (if nrm = Some ''l1''
                      then Np (Scalar (lamb * sum_list (map abs (ravel w))))
                      else PyNum 0);
         normcost = (if nrm = Some ''l2''
                     then Np (Scalar (lamb * (sqrt (sum_list (map (\<lambda>x. x ^ 2) (ravel w)))) ^ 2))
                     else normcost1)
     in bindE (py_truediv sumcost (length y)) (\<lambda>q. py_sub normcost q)))"

text \<open>
  \<^verbatim>\<open>
  def accuracy(X, y, w):
      results = np.round(sigmoid(X, w))
      score = sum([results[i] == y[i] for i in range(y.size)]) / y.size
      return score
  \<close>
  The label vector \<open>y\<close> is a list again. A comparison yields 1 for \<^verbatim>\<open>True\<close> and 0 for
  \<^verbatim>\<open>False\<close>, which is how \<^verbatim>\<open>sum\<close>, starting from the int 0, adds them.
\<close>

definition acc_term :: "ndarray \<Rightarrow> real list \<Rightarrow> nat \<Rightarrow> error + ndarray" where
  "acc_term results y i =
     bindE (index0 results i) (\<lambda>r.
     bindE (index_list y i) (\<lambda>yi.
     Inr (amap (\<lambda>a. if a = yi then 1 else 0) r)))"

fun acc_terms :: "ndarray \<Rightarrow> real list \<Rightarrow> nat list \<Rightarrow> error + ndarray list" where
  "acc_terms results y [] = Inr []"
| "acc_terms results y (i # is) =
     bindE (acc_term results y i) (\<lambda>t.
     bindE (acc_terms results y is) (\<lambda>ts. Inr (t # ts)))"

fun py_sum :: "pyval \<Rightarrow> ndarray list \<Rightarrow> error + pyval" where
  "py_sum acc [] = Inr acc"
| "py_sum acc (t # ts) = bindE (py_add acc t) (\<lambda>s. py_sum (Np s) ts)"

definition accuracy :: "ndarray \<Rightarrow> real list \<Rightarrow> ndarray \<Rightarrow> error + pyval" where
  "accuracy X y w =
     bindE (sigmoid X w) (\<lambda>s.
     let results = amap np_round s
     in bindE (acc_terms results y [0..<length y]) (\<lambda>ts.
        bindE (py_sum (PyNum 0) ts) (\<lambda>total.
        py_truediv total (length y))))"

subsection \<open>The training loop (cell 8)\<close>

text \<open>
  \<^verbatim>\<open>
  theta = np.random.normal(0, 0.1, X_train.shape[1])
  losses = []
  train_accuracies = []
  validation_accuracies = []
  epsilon = 0.05
  num_iterations = 300

  for i in range(num_iterations):
      diff = epsilon * gradient(X_train, Y_train, theta)
      theta = theta - diff
      losses.append(loss(X_train, Y_train, theta))
      train_accuracies.append(accuracy(X_train, Y_train, theta))
      validation_accuracies.append(accuracy(X_val, Y_val, theta))
  \<close>
  The cell's variables are the state of the loop. The random draws are a parameter:
  \<open>draws j\<close> is the \<open>j\<close>-th sample. The cell fixes \<open>epsilon = 0.05\<close> and
  \<open>num_iterations = 300\<close>; cell 13 runs the same loop with 500 iterations on a subset.
\<close>

record train_state =
  theta :: ndarray
  losses :: "pyval list"
  train_accuracies :: "pyval list"
  validation_accuracies :: "pyval list"

definition train_step ::
  "ndarray \<Rightarrow> real list \<Rightarrow> ndarray \<Rightarrow> real list \<Rightarrow> real \<Rightarrow> train_state \<Rightarrow> error + train_state" where
  "train_step X_train Y_train X_val Y_val epsilon st =
     bindE (gradient X_train (Vec Y_train) (theta st) False None 0) (\<lambda>g.
     let diff = amap (\<lambda>x. epsilon * x) g
     in bindE (binop (-) (theta st) diff) (\<lambda>th.
        bindE (loss X_train Y_train th None 0) (\<lambda>l.
        bindE (accuracy X_train Y_train th) (\<lambda>a.
        bindE (accuracy X_val Y_val th) (\<lambda>v.
        Inr \<lparr>theta = th, losses = losses st @ [l],
             train_accuracies = train_accuracies st @ [a],
             validation_accuracies = validation_accuracies st @ [v]\<rparr>)))))"

fun train_loop ::
  "ndarray \<Rightarrow> real list \<Rightarrow> ndarray \<Rightarrow> real list \<Rightarrow> real \<Rightarrow> nat \<Rightarrow> train_state \<Rightarrow> error + train_state" where
  "train_loop X_train Y_train X_val Y_val epsilon 0 st = Inr st"
| "train_loop X_train Y_train X_val Y_val epsilon (Suc k) st =
     bindE (train_step X_train Y_train X_val Y_val epsilon st)
       (train_loop X_train Y_train X_val Y_val epsilon k)"

definition train ::
  "ndarray \<Rightarrow> real list \<Rightarrow> ndarray \<Rightarrow> real list \<Rightarrow> (nat \<Rightarrow> real) \<Rightarrow> real \<Rightarrow> nat \<Rightarrow> error + train_state" where
  "train X_train Y_train X_val Y_val draws epsilon num_iterations =
     bindE (shape1 X_train) (\<lambda>d.
     train_loop X_train Y_train X_val Y_val epsilon num_iterations
       \<lparr>theta = Vec (map draws [0..<d]), losses = [], train_accuracies = [],
        validation_accuracies = []\<rparr>)"

subsection \<open>Closed forms on a design matrix\<close>

text \<open>
  The lists that the functions above compute on a design matrix \<open>Mat d X\<close>, a label vector
  and a weight vector of matching lengths. The auxiliary facts below prove that they are
  what the functions return; the claims are stated without them where a formula is claimed.
\<close>

text \<open>The batch branch on a design matrix, a label vector and a weight vector.\<close>

definition batch_base :: "nat \<Rightarrow> real list list \<Rightarrow> real list \<Rightarrow> real list \<Rightarrow> real list" where
  "batch_base d X y w =
     map (\<lambda>j. - inner (column X j) (map2 (-) y (map (\<lambda>r. 1 / (1 + exp (- inner r w))) X))
                / real (length y)) [0..<d]"

text \<open>One summand of the loss on row \<open>i\<close> of a design matrix.\<close>

definition row_cost :: "real list list \<Rightarrow> real list \<Rightarrow> real list \<Rightarrow> nat \<Rightarrow> real" where
  "row_cost X y w i =
     y ! i * ln (1 / (1 + exp (- inner (X ! i) w)))
     + (1 - y ! i) * ln (1 - 1 / (1 + exp (- inner (X ! i) w)))"

text \<open>Whether the rounded prediction for a row is its label.\<close>

definition hit :: "real list \<Rightarrow> real \<Rightarrow> real list \<Rightarrow> real" where
  "hit r l w = (if np_round (1 / (1 + exp (- inner r w))) = l then 1 else 0)"

text \<open>The single-point branch with the weights as a column.\<close>

definition point_base :: "real list \<Rightarrow> real \<Rightarrow> real list \<Rightarrow> real \<Rightarrow> real" where
  "point_base x y w v = - ((y - 1 / (1 + exp (- inner x w))) * v)"

text \<open>
  One update \<open>w \<leftarrow> w - epsilon * gradient(X, y, w)\<close> of a weight vector, read off the
  result of \<open>gradient\<close> with its default arguments.
\<close>

definition gd_update :: "ndarray \<Rightarrow> real list \<Rightarrow> real \<Rightarrow> real list \<Rightarrow> real list" where
  "gd_update X y epsilon w =
     (case gradient X (Vec y) (Vec w) False None 0 of
        Inr g \<Rightarrow> map2 (\<lambda>a b. a - epsilon * b) w (ravel g)
      | Inl e \<Rightarrow> w)"

section \<open>The same functions in float64 arithmetic\<close>

text \<open>
  Whether \<^verbatim>\<open>sigmoid\<close> reaches 0 or 1, whether \<^verbatim>\<open>loss\<close> is a number, and whether
  \<^verbatim>\<open>accuracy\<close> survives a rescaling of the weights is decided by the rounding of
  float64. For these questions \<^verbatim>\<open>sigmoid\<close>, \<^verbatim>\<open>loss\<close> and \<^verbatim>\<open>accuracy\<close> are embedded a
  second time, on a design matrix given by its rows, a label vector and a weight vector,
  over IEEE-754 binary64 numbers.

  A float64 is a finite number, an infinity or \<^verbatim>\<open>nan\<close>. Every arithmetic operation
  returns the exact result rounded to the nearest float64, ties to the even significand;
  a result beyond the largest finite float64 becomes an infinity. Three things are
  idealised: the sign of a zero is not kept (none of the three functions divides by a
  zero or otherwise reads it); \<^verbatim>\<open>np.exp\<close> and \<^verbatim>\<open>np.log\<close> are taken to be correctly
  rounded; and a sum of several terms (\<^verbatim>\<open>np.dot\<close>, \<^verbatim>\<open>np.sum\<close>) is taken to add its
  terms from left to right, each product rounded before it is added.
\<close>

subsection \<open>Rounding\<close>

datatype f64 = Fin real | PInf | NInf | NaN

text \<open>
  The exponent of the binade of \<open>x\<close>, not below that of the subnormal numbers, and the
  spacing of the float64 numbers in that binade: 52 bits follow the leading one.
\<close>

definition expo :: "real \<Rightarrow> int" where
  "expo x = max \<lfloor>log 2 \<bar>x\<bar>\<rfloor> (- 1022)"

definition quantum :: "real \<Rightarrow> real" where
  "quantum x = 2 powi (expo x - 52)"

text \<open>The largest finite float64.\<close>

definition max_f64 :: real where
  "max_f64 = (2 - 2 powi (- 52)) * 2 powi 1023"

text \<open>
  Rounding to nearest, ties to even: the nearest multiple of the quantum, the even
  multiple at a tie (\<open>np_round\<close> above is that rounding on the integers).
\<close>

definition rnd :: "real \<Rightarrow> f64" where
  "rnd x =
     (if x = 0 then Fin 0
      else let m = np_round (x / quantum x) * quantum x
           in if max_f64 < \<bar>m\<bar> then (if 0 < x then PInf else NInf) else Fin m)"

text \<open>A real number is a float64 when it is a multiple of the quantum of its binade.\<close>

definition repr :: "real \<Rightarrow> bool" where
  "repr b \<longleftrightarrow> (\<exists>n::int. b = of_int n * quantum b)"

subsection \<open>Operations\<close>

fun fneg :: "f64 \<Rightarrow> f64" where
  "fneg (Fin x) = Fin (- x)"
| "fneg PInf = NInf"
| "fneg NInf = PInf"
| "fneg NaN = NaN"

fun fadd :: "f64 \<Rightarrow> f64 \<Rightarrow> f64" where
  "fadd NaN b = NaN"
| "fadd a NaN = NaN"
| "fadd PInf NInf = NaN"
| "fadd NInf PInf = NaN"
| "fadd PInf b = PInf"
| "fadd a PInf = PInf"
| "fadd NInf b = NInf"
| "fadd a NInf = NInf"
| "fadd (Fin x) (Fin y) = rnd (x + y)"

definition fsub :: "f64 \<Rightarrow> f64 \<Rightarrow> f64" where
  "fsub a b = fadd a (fneg b)"

fun fmul :: "f64 \<Rightarrow> f64 \<Rightarrow> f64" where
  "fmul NaN b = NaN"
| "fmul a NaN = NaN"
| "fmul (Fin x) (Fin y) = rnd (x * y)"
| "fmul (Fin x) PInf = (if x = 0 then NaN else if 0 < x then PInf else NInf)"
| "fmul (Fin x) NInf = (if x = 0 then NaN else if 0 < x then NInf else PInf)"
| "fmul PInf (Fin y) = (if y = 0 then NaN else if 0 < y then PInf else NInf)"
| "fmul NInf (Fin y) = (if y = 0 then NaN else if 0 < y then NInf else PInf)"
| "fmul PInf PInf = PInf"
| "fmul PInf NInf = NInf"
| "fmul NInf PInf = NInf"
| "fmul NInf NInf = PInf"

text \<open>Division as numpy does it: a division by zero gives an infinity or \<^verbatim>\<open>nan\<close>.\<close>

fun fdiv :: "f64 \<Rightarrow> f64 \<Rightarrow> f64" where
  "fdiv NaN b = NaN"
| "fdiv a NaN = NaN"
| "fdiv (Fin x) (Fin y) =
     (if y = 0 then (if x = 0 then NaN else if 0 < x then PInf else NInf) else rnd (x / y))"
| "fdiv (Fin x) b = Fin 0"
| "fdiv PInf (Fin y) = (if 0 \<le> y then PInf else NInf)"
| "fdiv NInf (Fin y) = (if 0 \<le> y then NInf else PInf)"
| "fdiv a b = NaN"

text \<open>\<^verbatim>\<open>np.exp\<close> and \<^verbatim>\<open>np.log\<close>; the logarithm of zero is \<^verbatim>\<open>-inf\<close>, of a negative number \<^verbatim>\<open>nan\<close>.\<close>

fun fexp :: "f64 \<Rightarrow> f64" where
  "fexp (Fin x) = rnd (exp x)"
| "fexp PInf = PInf"
| "fexp NInf = Fin 0"
| "fexp NaN = NaN"

fun flog :: "f64 \<Rightarrow> f64" where
  "flog (Fin x) = (if x < 0 then NaN else if x = 0 then NInf else rnd (ln x))"
| "flog PInf = PInf"
| "flog a = NaN"

text \<open>\<^verbatim>\<open>np.round\<close> and \<^verbatim>\<open>==\<close>; \<^verbatim>\<open>nan\<close> equals nothing.\<close>

fun fround :: "f64 \<Rightarrow> f64" where
  "fround (Fin x) = Fin (np_round x)"
| "fround a = a"

fun feq :: "f64 \<Rightarrow> f64 \<Rightarrow> bool" where
  "feq (Fin x) (Fin y) = (x = y)"
| "feq PInf PInf = True"
| "feq NInf NInf = True"
| "feq a b = False"

subsection \<open>sigmoid and accuracy\<close>

text \<open>
  The score of a row: \<^verbatim>\<open>np.dot\<close> of the row and the weights. \<open>sigmoid64 d X w\<close> is
  \<^verbatim>\<open>sigmoid(X, w)\<close> for the matrix of shape \<^verbatim>\<open>(len X, d)\<close> with the rows \<open>X\<close> (each of
  length \<open>d\<close>) and the one-dimensional \<open>w\<close>: \<^verbatim>\<open>np.dot\<close> raises \<^verbatim>\<open>ValueError\<close> unless
  \<open>w\<close> has \<open>d\<close> entries, and the rest is elementwise.
\<close>

definition dot64 :: "f64 list \<Rightarrow> f64 list \<Rightarrow> f64" where
  "dot64 r w = foldl fadd (Fin 0) (map2 fmul r w)"

definition logistic64 :: "f64 \<Rightarrow> f64" where
  "logistic64 z = fdiv (Fin 1) (fadd (Fin 1) (fexp (fneg z)))"

definition sigmoid64 :: "nat \<Rightarrow> f64 list list \<Rightarrow> f64 list \<Rightarrow> error + f64 list" where
  "sigmoid64 d X w =
     (if d = length w then Inr (map (\<lambda>r. logistic64 (dot64 r w)) X) else Inl ValueError)"

text \<open>\<^verbatim>\<open>c * w\<close> for a float64 \<open>c\<close> and a one-dimensional \<open>w\<close>.\<close>

definition scale64 :: "f64 \<Rightarrow> f64 list \<Rightarrow> f64 list" where
  "scale64 c w = map (fmul c) w"

text \<open>
  \<^verbatim>\<open>accuracy(X, y, w)\<close>. The comprehension reads \<^verbatim>\<open>results[i]\<close> for every index of \<open>y\<close>
  and raises \<^verbatim>\<open>IndexError\<close> when \<open>y\<close> is longer than \<open>results\<close>; \<^verbatim>\<open>sum\<close> counts the
  equal pairs; without labels the division is that of the int 0 by the int 0, which
  raises; otherwise count and size are converted to float64 and divided.
\<close>

definition accuracy64 :: "nat \<Rightarrow> f64 list list \<Rightarrow> f64 list \<Rightarrow> f64 list \<Rightarrow> error + f64" where
  "accuracy64 d X y w =
     bindE (sigmoid64 d X w) (\<lambda>s.
     let results = map fround s
     in if length results < length y then Inl IndexError
        else if y = [] then Inl ZeroDivisionError
        else Inr (fdiv (rnd (real (length (filter (\<lambda>i. feq (results ! i) (y ! i)) [0..<length y]))))
                       (rnd (real (length y)))))"

text \<open>
  A score decides its prediction when rounding cannot blur it: it is not \<^verbatim>\<open>nan\<close> and
  not a positive number below \<open>1 / 2 ^ 50\<close>. The prediction of a decided score is 1 when the
  score is positive and 0 otherwise.
\<close>

fun decided :: "f64 \<Rightarrow> bool" where
  "decided (Fin x) = (x \<le> 0 \<or> 1 / 2 ^ 50 \<le> x)"
| "decided PInf = True"
| "decided NInf = True"
| "decided NaN = False"

fun positive :: "f64 \<Rightarrow> bool" where
  "positive (Fin x) = (0 < x)"
| "positive PInf = True"
| "positive a = False"

section \<open>Properties\<close>

subsection \<open>Auxiliary facts\<close>

lemma bindE_Inl [simp]: "bindE (Inl e) f = Inl e"
  by (simp add: bindE_def)

lemma bindE_Inr [simp]: "bindE (Inr v) f = f v"
  by (simp add: bindE_def)

lemma ravel_amap [simp]: "ravel (amap f a) = map f (ravel a)"
  by (cases a) (simp_all add: map_concat)

lemma shape_amap [simp]: "shape (amap f a) = shape a"
  by (cases a) simp_all

lemma size_of_amap [simp]: "size_of (amap f a) = size_of a"
  by (cases a) simp_all

lemma amap_amap [simp]: "amap f (amap g a) = amap (f \<circ> g) a"
  by (cases a) simp_all

lemma mk_simps [simp]:
  "mk 0 c rows = Scalar (hd (hd rows))"
  "mk (Suc 0) c rows = Vec (hd rows)"
  "mk 2 c rows = Mat c rows"
  "mk (Suc (Suc k)) c rows = Mat c rows"
  by (simp_all add: mk_def)

lemma stretch_same [simp]: "length xs = t \<Longrightarrow> stretch t xs = xs"
  by (simp add: stretch_def)

lemma bdim_same [simp]: "bdim a a = Some a"
  by (simp add: bdim_def)

lemma binop_Vec_Vec:
  "length a = length b \<Longrightarrow> binop f (Vec a) (Vec b) = Inr (Vec (map2 f a b))"
  by (simp add: binop_def)

lemma binop_Scalar_Scalar [simp]:
  "binop f (Scalar a) (Scalar b) = Inr (Scalar (f a b))"
  by (simp add: binop_def)

lemma one_plus_exp_neq0 [simp]: "1 + exp (t::real) \<noteq> 0"
  using exp_gt_zero [of t] by linarith

lemma sigmoid_elems:
  assumes "sigmoid X w = Inr s" and "z \<in> set (ravel s)"
  shows "\<exists>t. z = 1 / (1 + exp t)"
  using assms
  by (auto simp: sigmoid_def bindE_def rdiv_def list_ex_iff split: sum.splits if_splits)

lemma sigmoid_Mat_Vec:
  "length w = d \<Longrightarrow>
   sigmoid (Mat d X) (Vec w) = Inr (Vec (map (\<lambda>r. 1 / (1 + exp (- inner r w))) X))"
  by (auto simp: sigmoid_def rdiv_def list_ex_iff comp_def)

lemma sigmoid_Vec_Vec:
  "length x = length w \<Longrightarrow>
   sigmoid (Vec x) (Vec w) = Inr (Scalar (1 / (1 + exp (- inner x w))))"
  by (auto simp: sigmoid_def rdiv_def list_ex_iff comp_def)

lemma inner_sum:
  "length a = length b \<Longrightarrow> inner a b = (\<Sum>k<length a. a ! k * b ! k)"
  by (simp add: inner_def sum_list_sum_nth atLeast0LessThan)

lemma iadd_Vec_Vec:
  "length g = length q \<Longrightarrow> iadd (Np (Vec g)) (Vec q) = Inr (Vec (map2 (+) g q))"
  by (simp add: binop_Vec_Vec)

lemma gradient_batch_list:
  assumes "length y = length X" and "length w = d" and "X \<noteq> []"
  shows "gradient (Mat d X) (Vec y) (Vec w) False nrm lam =
         Inr (Vec (if nrm = Some ''l1'' then map2 (+) (map (\<lambda>x. lam * sgn x) w) (batch_base d X y w)
                   else if nrm = Some ''l2'' then map2 (+) (map (\<lambda>x. 2 * lam * x) w) (batch_base d X y w)
                   else batch_base d X y w))"
  using assms
  by (simp add: gradient_def sigmoid_Mat_Vec binop_Vec_Vec np_div_size_def batch_base_def
      comp_def iadd_Vec_Vec)

lemma batch_base_nth:
  assumes wf: "wellformed (Mat d X)" and ly: "length y = length X"
    and lw: "length w = d" and j: "j < d"
  shows "batch_base d X y w ! j =
         - (\<Sum>i<length X. X ! i ! j * (y ! i - 1 / (1 + exp (- (\<Sum>k<d. X ! i ! k * w ! k)))))
           / real (length X)"
proof -
  have row: "inner (X ! i) w = (\<Sum>k<d. X ! i ! k * w ! k)" if "i < length X" for i
  proof -
    from wf that have "length (X ! i) = d"
      by (simp add: list_all_length)
    with lw show ?thesis
      using inner_sum [of "X ! i" w] by simp
  qed
  have "inner (column X j) (map2 (-) y (map (\<lambda>r. 1 / (1 + exp (- inner r w))) X)) =
        (\<Sum>i<length X. X ! i ! j * (y ! i - 1 / (1 + exp (- (\<Sum>k<d. X ! i ! k * w ! k)))))"
    using ly by (simp add: inner_sum column_def row)
  with j ly show ?thesis
    by (simp add: batch_base_def)
qed

lemma length_batch_base [simp]: "length (batch_base d X y w) = d"
  by (simp add: batch_base_def)

lemma logistic_pos: "0 < 1 / (1 + exp (t::real))"
  by (simp add: add_pos_pos)

lemma logistic_less_one: "1 / (1 + exp (t::real)) < 1"
  by (simp add: add_pos_pos)

lemma one_plus_exp_pos [simp]: "0 < 1 + exp (t::real)"
  by (simp add: add_pos_pos)

lemma one_plus_exp_not_le [simp]: "\<not> 1 + exp (t::real) \<le> 0"
  using one_plus_exp_pos [of t] by linarith

lemma loss_term_row:
  assumes "i < length X" and "i < length y" and "length (X ! i) = length w"
  shows "loss_term (Mat d X) y (Vec w) i = Inr (Scalar (row_cost X y w i))"
  using assms logistic_pos [of "- inner (X ! i) w"] logistic_less_one [of "- inner (X ! i) w"]
  by (simp add: loss_term_def index_list_def sigmoid_Vec_Vec np_log_def row_cost_def
      del: divide_less_eq_1 zero_less_divide_1_iff)

lemma loss_loop_rows:
  assumes "\<forall>i \<in> set is. i < length X \<and> i < length y \<and> length (X ! i) = length w"
    and "acc = PyNum a \<or> acc = Np (Scalar a)"
  shows "loss_loop (Mat d X) y (Vec w) is acc =
         Inr (if is = [] then acc else Np (Scalar (a + sum_list (map (row_cost X y w) is))))"
  using assms
proof (induction "is" arbitrary: acc a)
  case Nil
  then show ?case by simp
next
  case (Cons i "is")
  have t: "loss_term (Mat d X) y (Vec w) i = Inr (Scalar (row_cost X y w i))"
    using Cons.prems(1) by (simp add: loss_term_row)
  have s: "iadd acc (Scalar (row_cost X y w i)) = Inr (Scalar (a + row_cost X y w i))"
    using Cons.prems(2) by auto
  have "loss_loop (Mat d X) y (Vec w) is (Np (Scalar (a + row_cost X y w i))) =
        Inr (if is = [] then Np (Scalar (a + row_cost X y w i))
             else Np (Scalar (a + row_cost X y w i + sum_list (map (row_cost X y w) is))))"
    using Cons.prems(1) by (intro Cons.IH) auto
  then show ?case
    by (simp add: t s add.assoc)
qed

lemma loss_rows:
  assumes wf: "wellformed (Mat d X)" and ly: "length y = length X"
    and lw: "length w = d" and ne: "X \<noteq> []"
  shows "loss (Mat d X) y (Vec w) nrm lam =
         Inr (Np (Scalar ((if nrm = Some ''l2'' then lam * sum_list (map (\<lambda>x. x ^ 2) w)
                           else if nrm = Some ''l1'' then lam * sum_list (map abs w)
                           else 0)
                          - sum_list (map (row_cost X y w) [0..<length X]) / real (length X))))"
proof -
  have "\<forall>i \<in> set [0..<length X]. i < length X \<and> i < length y \<and> length (X ! i) = length w"
    using wf ly lw by (simp add: list_all_length)
  then have loop: "loss_loop (Mat d X) y (Vec w) [0..<length X] (PyNum 0) =
        Inr (Np (Scalar (sum_list (map (row_cost X y w) [0..<length X]))))"
    using loss_loop_rows [of "[0..<length X]" X y w "PyNum 0" 0 d] ne by simp
  have sq: "(sqrt (sum_list (map (\<lambda>x. x ^ 2) w))) ^ 2 = sum_list (map (\<lambda>x. x ^ 2) w)"
    by (intro real_sqrt_pow2 sum_list_nonneg) auto
  show ?thesis
    using ne ly by (simp add: loss_def loop sq)
qed

lemma np_round_logistic:
  "np_round (1 / (1 + exp (- t))) = (if 0 < t then 1 else 0)"
proof -
  define z where "z = 1 / (1 + exp (- t))"
  have z0: "0 < z" and z1: "z < 1"
    unfolding z_def by (rule logistic_pos, rule logistic_less_one)
  then have fl: "\<lfloor>z\<rfloor> = 0"
    by (simp add: floor_eq_iff)
  have half: "z < 1 / 2 \<longleftrightarrow> t < 0"
  proof -
    have "z < 1 / 2 \<longleftrightarrow> 2 < 1 + exp (- t)"
      unfolding z_def by (simp add: field_simps)
    also have "\<dots> \<longleftrightarrow> t < 0" by simp
    finally show ?thesis .
  qed
  have half': "1 / 2 < z \<longleftrightarrow> 0 < t"
  proof -
    have "1 / 2 < z \<longleftrightarrow> 1 + exp (- t) < 2"
      unfolding z_def by (simp add: field_simps)
    also have "\<dots> \<longleftrightarrow> 0 < t" by simp
    finally show ?thesis .
  qed
  have "np_round z = (if 0 < t then 1 else 0)"
    using half half' by (auto simp: np_round_def fl Let_def)
  then show ?thesis by (simp add: z_def)
qed

lemma acc_terms_rows:
  assumes "\<forall>i \<in> set is. i < length rs \<and> i < length y"
  shows "acc_terms (Vec rs) y is =
         Inr (map (\<lambda>i. Scalar (if rs ! i = y ! i then 1 else 0)) is)"
  using assms by (induction "is") (simp_all add: acc_term_def index_list_def)

lemma py_sum_scalars:
  assumes "acc = PyNum a \<or> acc = Np (Scalar a)"
  shows "py_sum acc (map (\<lambda>i. Scalar (f i)) is) =
         Inr (if is = [] then acc else Np (Scalar (a + sum_list (map f is))))"
  using assms
proof (induction "is" arbitrary: acc a)
  case Nil
  then show ?case by simp
next
  case (Cons i "is")
  have s: "py_add acc (Scalar (f i)) = Inr (Scalar (a + f i))"
    using Cons.prems by auto
  have "py_sum (Np (Scalar (a + f i))) (map (\<lambda>i. Scalar (f i)) is) =
        Inr (if is = [] then Np (Scalar (a + f i))
             else Np (Scalar (a + f i + sum_list (map f is))))"
    by (intro Cons.IH) simp
  then show ?case
    by (simp add: s add.assoc)
qed

lemma accuracy_rows:
  assumes lw: "length w = d" and ly: "length y = length X"
  shows "accuracy (Mat d X) y (Vec w) =
         (if X = [] then Inl ZeroDivisionError
          else Inr (Np (Scalar ((\<Sum>i<length X. hit (X ! i) (y ! i) w) / real (length X)))))"
proof -
  define rs where "rs = map (\<lambda>r. np_round (1 / (1 + exp (- inner r w)))) X"
  define ts where "ts = map (\<lambda>i. Scalar (if rs ! i = y ! i then 1 else 0)) [0..<length X]"
  have results: "map_sum id (amap np_round) (sigmoid (Mat d X) (Vec w)) = Inr (Vec rs)"
    using lw by (simp add: sigmoid_Mat_Vec rs_def comp_def)
  have terms: "acc_terms (Vec rs) y [0..<length X] = Inr ts"
    unfolding ts_def using ly by (intro acc_terms_rows) (simp add: rs_def)
  have total: "py_sum (PyNum 0) ts =
               Inr (if [0..<length X] = [] then PyNum 0
                    else Np (Scalar (0 + sum_list (map (\<lambda>i. if rs ! i = y ! i then 1 else 0) [0..<length X]))))"
    unfolding ts_def by (intro py_sum_scalars) simp
  have sum: "sum_list (map (\<lambda>i. if rs ! i = y ! i then 1 else 0) [0..<length X]) =
             (\<Sum>i<length X. hit (X ! i) (y ! i) w)"
    by (simp add: interv_sum_list_conv_sum_set_nat atLeast0LessThan hit_def rs_def)
  obtain s where s: "sigmoid (Mat d X) (Vec w) = Inr s" and rs: "amap np_round s = Vec rs"
    using results by (cases "sigmoid (Mat d X) (Vec w)") auto
  show ?thesis
    using ly by (simp add: accuracy_def s rs terms total sum)
qed

lemma accuracy_bad_width:
  "length w \<noteq> d \<Longrightarrow> accuracy (Mat d X) y (Vec w) = Inl ValueError"
  by (auto simp: accuracy_def sigmoid_def)

lemma inner_scale: "inner r (map ((*) c) w) = c * inner r w"
  unfolding inner_def
proof (induction r arbitrary: w)
  case Nil
  then show ?case by simp
next
  case (Cons a r)
  then show ?case
    by (cases w) (simp_all add: algebra_simps)
qed

lemma batch_base_index:
  assumes wf: "wellformed (Mat d X)" and ly: "length y = length X"
    and lw: "length w = d"
  shows "batch_base d X y w =
         map (\<lambda>j. - (\<Sum>i<length X. X ! i ! j * (y ! i - 1 / (1 + exp (- (\<Sum>k<d. X ! i ! k * w ! k)))))
                   / real (length X)) [0..<d]"
  using assms by (intro nth_equalityI) (simp_all add: batch_base_nth)

lemma column_singletons [simp]: "column (map (\<lambda>v. [v]) ws) 0 = ws"
  by (simp add: column_def comp_def)

lemma sigmoid_Vec_column:
  "length x = length ws \<Longrightarrow>
   sigmoid (Vec x) (Mat (Suc 0) (map (\<lambda>v. [v]) ws)) = Inr (Vec [1 / (1 + exp (- inner x ws))])"
  by (simp add: sigmoid_def rdiv_def)

lemma map2_replicate_left: "map2 f (replicate (length b) a) b = map (f a) b"
  by (induction b) simp_all

lemma binop_Vec1_Vec [simp]: "binop f (Vec [a]) (Vec b) = Inr (Vec (map (f a) b))"
proof (cases "length b = 1")
  case True
  then obtain v where "b = [v]"
    by (cases b) auto
  then show ?thesis
    by (simp add: binop_def)
next
  case False
  then show ?thesis
    by (simp add: binop_def bdim_def stretch_def map2_replicate_left)
qed

lemma binop_Scalar_Vec [simp]: "binop f (Scalar a) (Vec b) = Inr (Vec (map (f a) b))"
proof (cases "length b = 1")
  case True
  then obtain v where "b = [v]"
    by (cases b) auto
  then show ?thesis
    by (simp add: binop_def)
next
  case False
  then show ?thesis
    by (simp add: binop_def bdim_def stretch_def map2_replicate_left)
qed

lemma binop_columns:
  "length g = length q \<Longrightarrow>
   binop f (Mat (Suc 0) (map (\<lambda>v. [a v]) g)) (Mat (Suc 0) (map (\<lambda>v. [b v]) q)) =
   Inr (Mat (Suc 0) (map2 (\<lambda>u v. [f (a u) (b v)]) g q))"
  by (auto simp: binop_def comp_def stretch_def zip_map_map intro!: nth_equalityI)

lemma map2_ignore_left: "length a = length b \<Longrightarrow> map2 (\<lambda>u v. g v) a b = map g b"
  by (induction a b rule: list_induct2) simp_all

lemma gradient_point_column:
  assumes "length x = length ws"
  shows "gradient (Vec x) (Scalar y) (Mat 1 (map (\<lambda>v. [v]) ws)) True nrm lam =
         Inr (Mat 1 (map2 (\<lambda>u v. [(if nrm = Some ''l1'' then lam * sgn u
                                     else if nrm = Some ''l2'' then 2 * lam * u else 0)
                                    + point_base x y ws v]) ws x))"
  using assms
  by (simp add: gradient_def sigmoid_Vec_column reshape_col_def comp_def point_base_def
      binop_columns map2_ignore_left)

lemma gradient_point_vec_plain:
  assumes "length x = length ws" and "nrm \<noteq> Some ''l1''" and "nrm \<noteq> Some ''l2''"
  shows "gradient (Vec x) (Scalar y) (Vec ws) True nrm lam =
         Inr (Mat 1 (map (\<lambda>v. [point_base x y ws v]) x))"
  using assms
  by (simp add: gradient_def sigmoid_Vec_Vec reshape_col_def comp_def point_base_def)

lemma gd_update_batch:
  assumes "length y = length X" and "length w = d" and "X \<noteq> []"
  shows "gd_update (Mat d X) y epsilon w = map2 (\<lambda>a b. a - epsilon * b) w (batch_base d X y w)"
  using gradient_batch_list [OF assms, of None 0] by (simp add: gd_update_def)

lemma length_gd_update:
  assumes "length y = length X" and "length w = d" and "X \<noteq> []"
  shows "length (gd_update (Mat d X) y epsilon w) = d"
  using assms by (simp add: gd_update_batch)

lemma train_step_batch:
  assumes wft: "wellformed (Mat d Xt)" and lyt: "length yt = length Xt" and net: "Xt \<noteq> []"
    and lyv: "length yv = length Xv" and nev: "Xv \<noteq> []"
    and th: "theta st = Vec w" and lw: "length w = d"
  shows "\<exists>l a v.
           train_step (Mat d Xt) yt (Mat d Xv) yv epsilon st =
             Inr \<lparr>theta = Vec (gd_update (Mat d Xt) yt epsilon w),
                  losses = losses st @ [l],
                  train_accuracies = train_accuracies st @ [a],
                  validation_accuracies = validation_accuracies st @ [v]\<rparr> \<and>
           loss (Mat d Xt) yt (Vec (gd_update (Mat d Xt) yt epsilon w)) None 0 = Inr l \<and>
           accuracy (Mat d Xt) yt (Vec (gd_update (Mat d Xt) yt epsilon w)) = Inr a \<and>
           accuracy (Mat d Xv) yv (Vec (gd_update (Mat d Xt) yt epsilon w)) = Inr v"
proof -
  let ?w' = "gd_update (Mat d Xt) yt epsilon w"
  have lw': "length ?w' = d"
    using lyt lw net by (rule length_gd_update)
  have g: "gradient (Mat d Xt) (Vec yt) (Vec w) False None 0 = Inr (Vec (batch_base d Xt yt w))"
    using gradient_batch_list [OF lyt lw net, of None 0] by simp
  have upd: "binop (-) (Vec w) (amap (\<lambda>x. epsilon * x) (Vec (batch_base d Xt yt w))) = Inr (Vec ?w')"
    using lw by (simp add: binop_Vec_Vec gd_update_batch [OF lyt lw net] zip_map2 case_prod_beta)
  obtain l where l: "loss (Mat d Xt) yt (Vec ?w') None 0 = Inr l"
    using loss_rows [OF wft lyt lw' net, of None 0] by simp
  obtain a where a: "accuracy (Mat d Xt) yt (Vec ?w') = Inr a"
    using accuracy_rows [OF lw' lyt] net by simp
  obtain v where v: "accuracy (Mat d Xv) yv (Vec ?w') = Inr v"
    using accuracy_rows [OF lw' lyv] nev by simp
  have "train_step (Mat d Xt) yt (Mat d Xv) yv epsilon st =
             Inr \<lparr>theta = Vec ?w', losses = losses st @ [l],
                  train_accuracies = train_accuracies st @ [a],
                  validation_accuracies = validation_accuracies st @ [v]\<rparr>"
    by (simp add: train_step_def th g upd l a v del: amap.simps)
  with l a v show ?thesis by blast
qed

lemma upt_Suc_shift: "[0..<Suc k] = 0 # map Suc [0..<k]"
  by (simp add: upt_conv_Cons map_Suc_upt del: upt_Suc)

lemma train_loop_batch:
  assumes wft: "wellformed (Mat d Xt)" and lyt: "length yt = length Xt" and net: "Xt \<noteq> []"
    and lyv: "length yv = length Xv" and nev: "Xv \<noteq> []"
    and th: "theta st = Vec w" and lw: "length w = d"
  shows "\<exists>st'. train_loop (Mat d Xt) yt (Mat d Xv) yv epsilon k st = Inr st' \<and>
           theta st' = Vec ((gd_update (Mat d Xt) yt epsilon ^^ k) w) \<and>
           length ((gd_update (Mat d Xt) yt epsilon ^^ k) w) = d \<and>
           map Inr (losses st') = map Inr (losses st) @
             map (\<lambda>i. loss (Mat d Xt) yt (Vec ((gd_update (Mat d Xt) yt epsilon ^^ Suc i) w)) None 0) [0..<k] \<and>
           map Inr (train_accuracies st') = map Inr (train_accuracies st) @
             map (\<lambda>i. accuracy (Mat d Xt) yt (Vec ((gd_update (Mat d Xt) yt epsilon ^^ Suc i) w))) [0..<k] \<and>
           map Inr (validation_accuracies st') = map Inr (validation_accuracies st) @
             map (\<lambda>i. accuracy (Mat d Xv) yv (Vec ((gd_update (Mat d Xt) yt epsilon ^^ Suc i) w))) [0..<k]"
  using th lw
proof (induction k arbitrary: st w)
  case 0
  then show ?case by simp
next
  case (Suc k)
  let ?u = "gd_update (Mat d Xt) yt epsilon"
  obtain l a v where step: "train_step (Mat d Xt) yt (Mat d Xv) yv epsilon st =
             Inr \<lparr>theta = Vec (?u w), losses = losses st @ [l],
                  train_accuracies = train_accuracies st @ [a],
                  validation_accuracies = validation_accuracies st @ [v]\<rparr>"
    and l: "loss (Mat d Xt) yt (Vec (?u w)) None 0 = Inr l"
    and a: "accuracy (Mat d Xt) yt (Vec (?u w)) = Inr a"
    and v: "accuracy (Mat d Xv) yv (Vec (?u w)) = Inr v"
    using train_step_batch [OF wft lyt net lyv nev Suc.prems] by blast
  let ?st1 = "\<lparr>theta = Vec (?u w), losses = losses st @ [l],
                  train_accuracies = train_accuracies st @ [a],
                  validation_accuracies = validation_accuracies st @ [v]\<rparr>"
  have lw1: "length (?u w) = d"
    using lyt Suc.prems(2) net by (rule length_gd_update)
  obtain st' where run: "train_loop (Mat d Xt) yt (Mat d Xv) yv epsilon k ?st1 = Inr st'"
    and th': "theta st' = Vec ((?u ^^ k) (?u w))"
    and len': "length ((?u ^^ k) (?u w)) = d"
    and ls: "map Inr (losses st') = map Inr (losses ?st1) @
             map (\<lambda>i. loss (Mat d Xt) yt (Vec ((?u ^^ Suc i) (?u w))) None 0) [0..<k]"
    and tas: "map Inr (train_accuracies st') = map Inr (train_accuracies ?st1) @
             map (\<lambda>i. accuracy (Mat d Xt) yt (Vec ((?u ^^ Suc i) (?u w)))) [0..<k]"
    and vas: "map Inr (validation_accuracies st') = map Inr (validation_accuracies ?st1) @
             map (\<lambda>i. accuracy (Mat d Xv) yv (Vec ((?u ^^ Suc i) (?u w)))) [0..<k]"
    using Suc.IH [of ?st1 "?u w"] lw1 by auto
  have sw: "(?u ^^ j) (?u w) = (?u ^^ Suc j) w" for j
    by (simp add: funpow_swap1)
  have one: "(?u ^^ Suc 0) w = ?u w"
    by simp
  have "train_loop (Mat d Xt) yt (Mat d Xv) yv epsilon (Suc k) st = Inr st'"
    by (simp add: step run)
  moreover have "theta st' = Vec ((?u ^^ Suc k) w)"
    using th' by (simp only: sw)
  moreover have "length ((?u ^^ Suc k) w) = d"
    using len' by (simp only: sw)
  moreover have "map Inr (losses st') = map Inr (losses st) @
             map (\<lambda>i. loss (Mat d Xt) yt (Vec ((?u ^^ Suc i) w)) None 0) [0..<Suc k]"
    unfolding ls sw upt_Suc_shift using l by (simp add: comp_def one del: funpow.simps)
  moreover have "map Inr (train_accuracies st') = map Inr (train_accuracies st) @
             map (\<lambda>i. accuracy (Mat d Xt) yt (Vec ((?u ^^ Suc i) w))) [0..<Suc k]"
    unfolding tas sw upt_Suc_shift using a by (simp add: comp_def one del: funpow.simps)
  moreover have "map Inr (validation_accuracies st') = map Inr (validation_accuracies st) @
             map (\<lambda>i. accuracy (Mat d Xv) yv (Vec ((?u ^^ Suc i) w))) [0..<Suc k]"
    unfolding vas sw upt_Suc_shift using v by (simp add: comp_def one del: funpow.simps)
  ultimately show ?case by blast
qed

lemma length_gd_iterate:
  assumes "length y = length X" and "length w = d" and "X \<noteq> []"
  shows "length ((gd_update (Mat d X) y epsilon ^^ i) w) = d"
proof (induction i)
  case 0
  then show ?case using assms(2) by simp
next
  case (Suc i)
  then show ?case
    using length_gd_update [OF assms(1) Suc assms(3)] by simp
qed

lemma map_Inr_eq: "map Inr xs = map Inr ys \<Longrightarrow> xs = ys"
  by (simp add: inj_map_eq_map)

text \<open>
  Two outcomes off the well-shaped path. Without rows the batch branch divides by
  \<^verbatim>\<open>y.size = 0\<close>: numpy returns \<^verbatim>\<open>nan\<close>. With one-dimensional weights and a norm the
  single-point branch adds a column in place to a one-dimensional array, which numpy
  refuses whatever the length.
\<close>

lemma gradient_batch_no_rows:
  "length w = d \<Longrightarrow> gradient (Mat d []) (Vec []) (Vec w) False nrm lam = Inl NonFinite"
  by (simp add: gradient_def sigmoid_Mat_Vec binop_Vec_Vec np_div_size_def)

lemma inplace_Vec_Mat:
  "bindE (binop f (Vec g) (Mat c rows)) (\<lambda>s. if shape s = [n] then Inr s else Inl ValueError) =
   Inl ValueError"
  by (simp add: binop_def bindE_def split: option.splits)

lemma gradient_point_vec_regularized:
  assumes "length x = length ws" and "nrm = Some ''l1'' \<or> nrm = Some ''l2''"
  shows "gradient (Vec x) (Scalar y) (Vec ws) True nrm lam = Inl ValueError"
  using assms
  by (auto simp: gradient_def sigmoid_Vec_Vec reshape_col_def inplace_Vec_Mat)

text \<open>
  In exact real arithmetic \<^verbatim>\<open>sigmoid\<close> stays strictly between 0 and 1, \<^verbatim>\<open>loss\<close> is the
  negative mean log-likelihood plus the penalty, and a positive rescaling of the weights
  leaves \<^verbatim>\<open>accuracy\<close> unchanged. None of the three survives the rounding of float64
  unchanged, as the section of the claims shows.
\<close>

lemma sigmoid_range_exact:
  shows "(sigmoid X w = Inr s \<longrightarrow> (\<forall>z \<in> set (ravel s). 0 < z \<and> z < 1)) \<and>
         (length u = d \<longrightarrow>
            (\<exists>r. sigmoid (Mat d M) (Vec u) = Inr (Vec r) \<and> length r = length M \<and>
                 (\<forall>z \<in> set r. 0 < z \<and> z < 1)))"
proof (intro conjI impI ballI)
  fix z assume "sigmoid X w = Inr s" and "z \<in> set (ravel s)"
  then obtain t where z: "z = 1 / (1 + exp t)"
    using sigmoid_elems by blast
  show "0 < z" and "z < 1"
    unfolding z by (rule logistic_pos, rule logistic_less_one)
next
  assume "length u = d"
  then have r: "sigmoid (Mat d M) (Vec u) = Inr (Vec (map (\<lambda>r. 1 / (1 + exp (- inner r u))) M))"
    by (rule sigmoid_Mat_Vec)
  have "\<forall>z \<in> set (map (\<lambda>r. 1 / (1 + exp (- inner r u))) M). 0 < z \<and> z < 1"
    using logistic_pos logistic_less_one by auto
  with r show "\<exists>r. sigmoid (Mat d M) (Vec u) = Inr (Vec r) \<and> length r = length M \<and>
                 (\<forall>z \<in> set r. 0 < z \<and> z < 1)"
    by simp
qed

lemma loss_formula_exact:
  assumes wf: "wellformed (Mat d X)" and lx: "length X = n" and ly: "length y = n"
    and lw: "length w = d" and n: "0 < n"
  shows "\<exists>s. sigmoid (Mat d X) (Vec w) = Inr (Vec s) \<and> length s = n \<and>
           loss (Mat d X) y (Vec w) nrm lam =
           Inr (Np (Scalar (
             - ((\<Sum>i<n. y ! i * ln (s ! i) + (1 - y ! i) * ln (1 - s ! i)) / real n)
             + (if nrm = Some ''l1'' then lam * (\<Sum>k<d. \<bar>w ! k\<bar>)
                else if nrm = Some ''l2'' then lam * (\<Sum>k<d. (w ! k) ^ 2)
                else 0))))"
proof -
  define s where "s = map (\<lambda>r. 1 / (1 + exp (- inner r w))) X"
  have sig: "sigmoid (Mat d X) (Vec w) = Inr (Vec s)"
    using lw by (simp add: sigmoid_Mat_Vec s_def)
  have ls: "length s = n"
    using lx by (simp add: s_def)
  have ne: "X \<noteq> []" and lyx: "length y = length X"
    using lx ly n by auto
  have rows: "sum_list (map (row_cost X y w) [0..<n]) =
              (\<Sum>i<n. y ! i * ln (s ! i) + (1 - y ! i) * ln (1 - s ! i))"
    using lx by (simp add: interv_sum_list_conv_sum_set_nat atLeast0LessThan row_cost_def s_def)
  have l1: "sum_list (map abs w) = (\<Sum>k<d. \<bar>w ! k\<bar>)"
    using lw by (simp add: sum_list_sum_nth atLeast0LessThan)
  have l2: "sum_list (map (\<lambda>x. x ^ 2) w) = (\<Sum>k<d. (w ! k) ^ 2)"
    using lw by (simp add: sum_list_sum_nth atLeast0LessThan)
  have "loss (Mat d X) y (Vec w) nrm lam =
           Inr (Np (Scalar (
             - ((\<Sum>i<n. y ! i * ln (s ! i) + (1 - y ! i) * ln (1 - s ! i)) / real n)
             + (if nrm = Some ''l1'' then lam * (\<Sum>k<d. \<bar>w ! k\<bar>)
                else if nrm = Some ''l2'' then lam * (\<Sum>k<d. (w ! k) ^ 2)
                else 0))))"
    using lx by (simp add: loss_rows [OF wf lyx lw ne] rows l1 l2)
  with sig ls show ?thesis by blast
qed

lemma accuracy_scale_exact:
  assumes c: "0 < c"
  shows "accuracy (Mat d X) y (amap (\<lambda>x. c * x) (Vec w)) = accuracy (Mat d X) y (Vec w)"
proof (cases "length w = d")
  case False
  then show ?thesis by (simp add: accuracy_bad_width)
next
  case True
  have "np_round (1 / (1 + exp (- (c * inner r w)))) = np_round (1 / (1 + exp (- inner r w)))" for r
    using c by (simp add: np_round_logistic zero_less_mult_iff)
  then show ?thesis
    using True by (simp add: accuracy_def sigmoid_Mat_Vec comp_def inner_scale)
qed

subsection \<open>Facts about float64 arithmetic\<close>

lemma powi_powr: "(2::real) powi k = 2 powr (real_of_int k)"
  by (simp add: powr_real_of_int')

lemma expo_eq:
  assumes "2 powi k \<le> \<bar>x\<bar>" and "\<bar>x\<bar> < 2 powi (k + 1)" and "- 1022 \<le> k"
  shows "expo x = k"
proof -
  have pos: "0 < \<bar>x\<bar>"
    using assms(1) zero_less_power_int [of "2::real" k] by linarith
  have "\<lfloor>log 2 \<bar>x\<bar>\<rfloor> = k"
    using assms(1,2) pos by (simp add: floor_log_eq_powr_iff powi_powr)
  then show ?thesis
    using assms(3) by (simp add: expo_def)
qed

lemma quantum_pos [simp]: "0 < quantum x"
  by (simp add: quantum_def)

lemma np_round_of_int [simp]: "np_round (of_int k) = of_int k"
  by (simp add: np_round_def)

lemma np_round_near:
  assumes "\<bar>y - of_int k\<bar> < 1 / 2"
  shows "np_round y = of_int k"
proof (cases "of_int k \<le> y")
  case True
  with assms have "\<lfloor>y\<rfloor> = k"
    by (simp add: floor_eq_iff; linarith?)
  with assms True show ?thesis
    by (simp add: np_round_def Let_def; linarith?)
next
  case False
  with assms have f: "\<lfloor>y\<rfloor> = k - 1"
    by (simp add: floor_eq_iff; linarith?)
  have "1 / 2 < y - of_int (k - 1)"
    using assms False by (simp; linarith?)
  with f show ?thesis
    by (simp add: np_round_def Let_def; linarith?)
qed

lemma np_round_ge: "of_int k \<le> y \<Longrightarrow> of_int k \<le> np_round y"
proof -
  assume "of_int k \<le> y"
  then have "k \<le> \<lfloor>y\<rfloor>" by (simp add: le_floor_iff)
  then have "(of_int k :: real) \<le> of_int \<lfloor>y\<rfloor>" by simp
  then show ?thesis
    by (auto simp: np_round_def Let_def)
qed

lemma np_round_le: "y \<le> of_int k \<Longrightarrow> np_round y \<le> of_int k"
proof (cases "y = of_int k")
  case True
  then show ?thesis by simp
next
  case False
  assume "y \<le> of_int k"
  with False have "y < of_int k" by simp
  then have "\<lfloor>y\<rfloor> < k" by (simp add: floor_less_iff)
  then have "\<lfloor>y\<rfloor> + 1 \<le> k" by simp
  then have "(of_int \<lfloor>y\<rfloor> :: real) + 1 \<le> of_int k"
    by (metis of_int_1 of_int_add of_int_le_iff)
  then show ?thesis
    by (auto simp: np_round_def Let_def)
qed

lemma np_round_half: "np_round (1 / 2) = 0"
  by (simp add: np_round_def)

lemma pow2_pos: "0 < (2::real) powi k"
  by simp

lemma rnd_exact:
  assumes "2 powi k \<le> \<bar>x\<bar>" and "\<bar>x\<bar> < 2 powi (k + 1)" and "- 1022 \<le> k" and "k \<le> 1022"
    and "x / 2 powi (k - 52) = of_int n"
  shows "rnd x = Fin x"
proof -
  have e: "expo x = k"
    using assms(1-3) by (rule expo_eq)
  have x0: "x \<noteq> 0"
    using assms(1) pow2_pos [of k] by linarith
  have "\<bar>x\<bar> < 2 powi 1023"
    using assms(2,4) power_int_increasing [of "k + 1" 1023 "2::real"] by simp
  also have "\<dots> \<le> max_f64"
    by (simp add: max_f64_def power_int_minus)
  finally have "\<not> max_f64 < \<bar>x\<bar>" by simp
  moreover have "np_round (x / quantum x) * quantum x = x"
    using assms(5) by (simp add: quantum_def e) (metis assms(5) nonzero_divide_eq_eq power_int_eq_0_iff zero_neq_numeral)
  ultimately show ?thesis
    using x0 by (simp add: rnd_def Let_def)
qed

lemma rnd_1 [simp]: "rnd 1 = Fin 1"
  using rnd_exact [of 0 1 "2 ^ 52"] by (simp add: power_int_minus)

lemma rnd_2 [simp]: "rnd 2 = Fin 2"
  using rnd_exact [of 1 2 "2 ^ 52"] by (simp add: power_int_minus)

lemma rnd_half [simp]: "rnd (1 / 2) = Fin (1 / 2)"
  using rnd_exact [of "- 1" "1 / 2" "2 ^ 52"] by (simp add: power_int_minus)

lemma rnd_40 [simp]: "rnd 40 = Fin 40"
  using rnd_exact [of 5 40 "5 * 2 ^ 50"] by (simp add: power_int_minus)

lemma rnd_0 [simp]: "rnd 0 = Fin 0"
  by (simp add: rnd_def)

lemma floor_log2_bounds:
  assumes "x \<noteq> 0"
  shows "2 powi \<lfloor>log 2 \<bar>x\<bar>\<rfloor> \<le> \<bar>x\<bar>" and "\<bar>x\<bar> < 2 powi (\<lfloor>log 2 \<bar>x\<bar>\<rfloor> + 1)"
proof -
  have pos: "0 < \<bar>x\<bar>" using assms by simp
  have "2 powr (real_of_int \<lfloor>log 2 \<bar>x\<bar>\<rfloor>) \<le> \<bar>x\<bar> \<and>
        \<bar>x\<bar> < 2 powr (real_of_int (\<lfloor>log 2 \<bar>x\<bar>\<rfloor> + 1))"
    using floor_log_eq_powr_iff [of "\<bar>x\<bar>" 2 "\<lfloor>log 2 \<bar>x\<bar>\<rfloor>"] pos by simp
  then show "2 powi \<lfloor>log 2 \<bar>x\<bar>\<rfloor> \<le> \<bar>x\<bar>" and "\<bar>x\<bar> < 2 powi (\<lfloor>log 2 \<bar>x\<bar>\<rfloor> + 1)"
    by (simp_all only: powi_powr)
qed

lemma expo_upper:
  assumes "x \<noteq> 0"
  shows "\<bar>x\<bar> < 2 powi (expo x + 1)"
proof -
  have "\<bar>x\<bar> < 2 powi (\<lfloor>log 2 \<bar>x\<bar>\<rfloor> + 1)"
    using assms by (rule floor_log2_bounds)
  also have "\<dots> \<le> 2 powi (expo x + 1)"
    by (intro power_int_increasing) (simp_all add: expo_def)
  finally show ?thesis .
qed

lemma expo_lower:
  assumes "- 1022 < expo x" and "x \<noteq> 0"
  shows "2 powi (expo x) \<le> \<bar>x\<bar>"
proof -
  from assms(1) have "expo x = \<lfloor>log 2 \<bar>x\<bar>\<rfloor>"
    by (simp add: expo_def max_def split: if_splits)
  then show ?thesis
    using floor_log2_bounds(1) [OF assms(2)] by simp
qed

lemma expo_mono:
  assumes "x \<noteq> 0" and "\<bar>x\<bar> \<le> \<bar>y\<bar>"
  shows "expo x \<le> expo y"
proof -
  have "log 2 \<bar>x\<bar> \<le> log 2 \<bar>y\<bar>"
    using assms by simp
  then have "\<lfloor>log 2 \<bar>x\<bar>\<rfloor> \<le> \<lfloor>log 2 \<bar>y\<bar>\<rfloor>"
    by (rule floor_mono)
  then show ?thesis
    by (simp add: expo_def)
qed

lemma expo_ge [simp]: "- 1022 \<le> expo x"
  by (simp add: expo_def)

lemma repr_intro:
  assumes "2 powi k \<le> \<bar>b\<bar>" and "\<bar>b\<bar> < 2 powi (k + 1)" and "- 1022 \<le> k"
    and "b = of_int n * 2 powi (k - 52)"
  shows "repr b"
proof -
  have "expo b = k"
    using assms(1-3) by (rule expo_eq)
  with assms(4) show ?thesis
    unfolding repr_def quantum_def by auto
qed

lemma quantum_ratio:
  assumes "expo x \<le> expo b"
  shows "quantum b = of_int (2 ^ nat (expo b - expo x)) * quantum x"
proof -
  have "quantum b = 2 powi ((expo b - expo x) + (expo x - 52))"
    by (simp add: quantum_def)
  also have "\<dots> = 2 powi (expo b - expo x) * 2 powi (expo x - 52)"
    by (subst power_int_add) simp_all
  also have "2 powi (expo b - expo x) = (2::real) ^ nat (expo b - expo x)"
    using assms by (simp add: power_int_def)
  finally show ?thesis
    by (simp add: quantum_def)
qed

lemma quantum_neq0 [simp]: "quantum x \<noteq> 0"
  using quantum_pos [of x] by linarith

lemma quantum_nonneg [simp]: "0 \<le> quantum x"
  using quantum_pos [of x] by linarith

lemma rnd_upper:
  assumes x: "0 < x" and xb: "x \<le> b" and r: "repr b" and bm: "b \<le> max_f64"
  shows "\<exists>m. rnd x = Fin m \<and> 0 \<le> m \<and> m \<le> b"
proof -
  let ?q = "quantum x"
  let ?m = "np_round (x / ?q) * ?q"
  from r obtain n :: int where n: "b = of_int n * quantum b"
    unfolding repr_def by blast
  have "expo x \<le> expo b"
    using x xb by (intro expo_mono) simp_all
  then have "quantum b = of_int (2 ^ nat (expo b - expo x)) * ?q"
    by (rule quantum_ratio)
  with n have "b = of_int (n * 2 ^ nat (expo b - expo x)) * ?q"
    by simp
  then have bq: "b / ?q = of_int (n * 2 ^ nat (expo b - expo x))"
    by (simp add: nonzero_divide_eq_eq)
  have "x / ?q \<le> b / ?q"
    using xb by (intro divide_right_mono) simp_all
  then have "np_round (x / ?q) \<le> b / ?q"
    unfolding bq by (rule np_round_le)
  then have up: "?m \<le> b"
    by (simp add: pos_le_divide_eq)
  have "(of_int 0 :: real) \<le> x / ?q"
    using x by simp
  then have "of_int 0 \<le> np_round (x / ?q)"
    by (rule np_round_ge)
  then have lo: "0 \<le> ?m"
    by simp
  from lo up bm have "\<not> max_f64 < \<bar>?m\<bar>"
    by simp
  with x lo up show ?thesis
    by (simp add: rnd_def Let_def)
qed

lemma rnd_lower:
  assumes a: "0 < a" and ax: "a \<le> x" and r: "repr a"
  shows "rnd x = PInf \<or> (\<exists>m. rnd x = Fin m \<and> a \<le> m)"
proof -
  let ?q = "quantum x"
  let ?m = "np_round (x / ?q) * ?q"
  have x: "0 < x" using a ax by simp
  have le: "expo a \<le> expo x"
    using a ax by (intro expo_mono) simp_all
  have "a \<le> ?m"
  proof (cases "expo a = expo x")
    case True
    from r obtain n :: int where "a = of_int n * quantum a"
      unfolding repr_def by blast
    with True have aq: "a / ?q = of_int n"
      by (simp add: quantum_def)
    have "a / ?q \<le> x / ?q"
      using ax by (intro divide_right_mono) simp_all
    then have "a / ?q \<le> np_round (x / ?q)"
      unfolding aq by (rule np_round_ge)
    then show ?thesis
      by (simp add: pos_divide_le_eq)
  next
    case False
    with le have lt: "expo a < expo x" by simp
    then have "- 1022 < expo x"
      using expo_ge [of a] by linarith
    then have px: "2 powi (expo x) \<le> x"
      using expo_lower [of x] x by simp
    have "a < 2 powi (expo a + 1)"
      using expo_upper [of a] a by simp
    also have "\<dots> \<le> 2 powi (expo x)"
      using lt by (intro power_int_increasing) simp_all
    finally have apx: "a < 2 powi (expo x)" .
    have "2 powi (expo x) / ?q = 2 powi (expo x - (expo x - 52))"
      unfolding quantum_def by (subst power_int_diff) simp_all
    then have pq: "2 powi (expo x) / ?q = of_int (2 ^ 52)"
      by simp
    have "2 powi (expo x) / ?q \<le> x / ?q"
      using px by (intro divide_right_mono) simp_all
    then have "2 powi (expo x) / ?q \<le> np_round (x / ?q)"
      unfolding pq by (rule np_round_ge)
    then have "2 powi (expo x) \<le> ?m"
      by (simp add: pos_divide_le_eq)
    with apx show ?thesis by simp
  qed
  then show ?thesis
    using x by (auto simp: rnd_def Let_def)
qed

lemma max_f64_ge: "2 powi 1023 \<le> max_f64"
  by (simp add: max_f64_def power_int_minus)

lemma small_le_max: "b \<le> 2 ^ 53 \<Longrightarrow> b \<le> max_f64"
proof -
  assume "b \<le> 2 ^ 53"
  also have "(2::real) ^ 53 \<le> 2 powi 1023"
    by simp
  also note max_f64_ge
  finally show ?thesis .
qed

lemma repr_1: "repr 1"
  by (rule repr_intro [of 0 _ "2 ^ 52"]) (simp_all add: power_int_minus)

lemma repr_2: "repr 2"
  by (rule repr_intro [of 1 _ "2 ^ 52"]) (simp_all add: power_int_minus)

lemma repr_half: "repr (1 / 2)"
  by (rule repr_intro [of "- 1" _ "2 ^ 52"]) (simp_all add: power_int_minus)

lemma repr_a: "repr (1 - 1 / 2 ^ 51)"
  by (rule repr_intro [of "- 1" _ "2 ^ 53 - 4"]) (simp_all add: power_int_minus)

lemma repr_b: "repr (2 - 1 / 2 ^ 51)"
  by (rule repr_intro [of 0 _ "2 ^ 53 - 2"]) (simp_all add: power_int_minus)

lemma repr_c: "repr (1 / 2 + 1 / 2 ^ 53)"
  by (rule repr_intro [of "- 1" _ "2 ^ 52 + 1"]) (simp_all add: power_int_minus)

lemma repr_small: "repr (1 / 2 ^ 54)"
  by (rule repr_intro [of "- 54" _ "2 ^ 52"]) (simp_all add: power_int_minus)

lemma repr_d: "repr (1 / 2 ^ 52)"
  by (rule repr_intro [of "- 52" _ "2 ^ 52"]) (simp_all add: power_int_minus)

lemma repr_e: "repr (2 ^ 52)"
  by (rule repr_intro [of 52 _ "2 ^ 52"]) (simp_all add: power_int_minus)

lemma repr_f: "repr (2 ^ 53)"
  by (rule repr_intro [of 53 _ "2 ^ 52"]) (simp_all add: power_int_minus)

lemma repr_g: "repr (1 + 1 / 2 ^ 52)"
  by (rule repr_intro [of 0 _ "2 ^ 52 + 1"]) (simp_all add: power_int_minus)

lemma repr_h: "repr (1 - 1 / 2 ^ 53)"
  by (rule repr_intro [of "- 1" _ "2 ^ 53 - 1"]) (simp_all add: power_int_minus)

lemma repr_i: "repr (1 / 2 ^ 53)"
  by (rule repr_intro [of "- 53" _ "2 ^ 52"]) (simp_all add: power_int_minus)

lemma rnd_between:
  assumes "0 < a" and "a \<le> x" and "x \<le> b" and "repr a" and "repr b" and "b \<le> max_f64"
  shows "\<exists>m. rnd x = Fin m \<and> a \<le> m \<and> m \<le> b"
proof -
  have x: "0 < x" using assms(1,2) by simp
  from rnd_upper [OF x assms(3,5,6)] obtain m where m: "rnd x = Fin m" "m \<le> b"
    by blast
  from rnd_lower [OF assms(1,2,4)] m(1) have "a \<le> m"
    by auto
  with m show ?thesis by blast
qed

lemma rnd_pos:
  assumes "0 < x"
  shows "rnd x = PInf \<or> (\<exists>m. rnd x = Fin m \<and> 0 \<le> m)"
proof -
  have "(of_int 0 :: real) \<le> x / quantum x"
    using assms by simp
  then have "of_int 0 \<le> np_round (x / quantum x)"
    by (rule np_round_ge)
  then have "0 \<le> np_round (x / quantum x) * quantum x"
    by simp
  then show ?thesis
    using assms by (auto simp: rnd_def Let_def)
qed

text \<open>The elementwise logistic function stays in the closed unit interval.\<close>

lemma logistic64_after_exp:
  assumes "e = PInf \<or> (\<exists>t. e = Fin t \<and> 0 \<le> t)"
  shows "\<exists>r. fdiv (Fin 1) (fadd (Fin 1) e) = Fin r \<and> 0 \<le> r \<and> r \<le> 1"
  using assms
proof (elim disjE exE conjE)
  assume "e = PInf"
  then show ?thesis by simp
next
  fix t assume e: "e = Fin t" and t: "0 \<le> t"
  from rnd_lower [of 1 "1 + t"] t repr_1
  consider "rnd (1 + t) = PInf" | d where "rnd (1 + t) = Fin d" "1 \<le> d"
    by auto
  then show ?thesis
  proof cases
    case 1
    then show ?thesis by (simp add: e)
  next
    case 2
    have "\<exists>r. rnd (1 / d) = Fin r \<and> 0 \<le> r \<and> r \<le> 1"
      using 2(2) by (intro rnd_upper repr_1 small_le_max) simp_all
    with 2 show ?thesis
      by (simp add: e)
  qed
qed

lemma logistic64_range:
  assumes "z \<noteq> NaN"
  shows "\<exists>r. logistic64 z = Fin r \<and> 0 \<le> r \<and> r \<le> 1"
proof -
  have "fexp (fneg z) = PInf \<or> (\<exists>t. fexp (fneg z) = Fin t \<and> 0 \<le> t)"
  proof (cases z)
    case (Fin x)
    then show ?thesis
      using rnd_pos [of "exp (- x)"] by simp
  qed (use assms in simp_all)
  then show ?thesis
    unfolding logistic64_def by (rule logistic64_after_exp)
qed

lemma logistic64_NaN [simp]: "logistic64 NaN = NaN"
  by (simp add: logistic64_def)

lemma exp_32_le: "exp (32::real) \<le> 2 ^ 52"
proof -
  have "exp (32::real) = exp (of_nat 32 * 1)" by simp
  also have "\<dots> = exp 1 ^ 32" by (rule exp_of_nat_mult)
  also have "\<dots> \<le> 3 ^ 32"
    using exp_le by (intro power_mono) simp_all
  also have "\<dots> \<le> (2::real) ^ 52" by simp
  finally show ?thesis .
qed

lemma exp_40_ge: "(2::real) ^ 54 \<le> exp 40"
proof -
  have h: "(13 / 8 :: real) \<le> exp (1 / 2)"
    using exp_lower_Taylor_quadratic [of "1 / 2 :: real"] by (simp add: power2_eq_square)
  have "(2::real) ^ 54 \<le> (13 / 8) ^ 80"
    by (simp add: power_divide pos_le_divide_eq)
  also have "\<dots> \<le> exp (1 / 2) ^ 80"
    using h by (intro power_mono) simp_all
  also have "\<dots> = exp (of_nat 80 * (1 / 2))" by (rule exp_of_nat_mult [symmetric])
  also have "\<dots> = exp 40" by simp
  finally show ?thesis .
qed

lemma exp_minus_bounds:
  fixes x :: real
  assumes "\<bar>x\<bar> \<le> 32"
  shows "1 / 2 ^ 52 \<le> exp (- x)" and "exp (- x) \<le> 2 ^ 52"
proof -
  have "exp (- x) \<le> exp 32" using assms by simp
  then show "exp (- x) \<le> 2 ^ 52" using exp_32_le by linarith
  have "exp x \<le> exp 32" using assms by simp
  then have "exp x \<le> 2 ^ 52" using exp_32_le by linarith
  then have "1 / 2 ^ 52 \<le> 1 / exp x"
    by (intro divide_left_mono) simp_all
  then show "1 / 2 ^ 52 \<le> exp (- x)"
    by (simp add: exp_minus')
qed

lemma logistic64_strict:
  assumes "\<bar>x\<bar> \<le> 32"
  shows "\<exists>r. logistic64 (Fin x) = Fin r \<and> 0 < r \<and> r < 1"
proof -
  from rnd_between [of "1 / 2 ^ 52" "exp (- x)" "2 ^ 52"] exp_minus_bounds [OF assms]
  obtain t where t: "rnd (exp (- x)) = Fin t" "1 / 2 ^ 52 \<le> t" "t \<le> 2 ^ 52"
    using repr_d repr_e small_le_max [of "2 ^ 52"] by auto
  from rnd_between [of "1 + 1 / 2 ^ 52" "1 + t" "2 ^ 53"] t
  obtain d where d: "rnd (1 + t) = Fin d" "1 + 1 / 2 ^ 52 \<le> d" "d \<le> 2 ^ 53"
    using repr_g repr_f small_le_max [of "2 ^ 53"] by auto
  have dpos: "0 < d" using d(2) by (smt (verit) zero_less_divide_1_iff zero_less_numeral zero_less_power)
  have lo: "1 / 2 ^ 53 \<le> 1 / d"
    using d(3) dpos by (intro divide_left_mono) simp_all
  have "1 / d \<le> 1 / (1 + 1 / 2 ^ 52)"
    using d(2) dpos by (intro divide_left_mono) simp_all
  also have "\<dots> \<le> 1 - 1 / 2 ^ 53"
    by simp
  finally have hi: "1 / d \<le> 1 - 1 / 2 ^ 53" .
  from rnd_between [of "1 / 2 ^ 53" "1 / d" "1 - 1 / 2 ^ 53"] lo hi
  obtain r where r: "rnd (1 / d) = Fin r" "1 / 2 ^ 53 \<le> r" "r \<le> 1 - 1 / 2 ^ 53"
    using repr_i repr_h small_le_max [of "1 - 1 / 2 ^ 53"] by auto
  have "0 < r" using r(2) by (smt (verit) zero_less_divide_1_iff zero_less_numeral zero_less_power)
  moreover have "r < 1" using r(3) by (smt (verit) zero_less_divide_1_iff zero_less_numeral zero_less_power)
  moreover have "logistic64 (Fin x) = Fin r"
    using t(1) d(1) r(1) dpos by (simp add: logistic64_def)
  ultimately show ?thesis by blast
qed

lemma np_round_0 [simp]: "np_round 0 = 0"
  using np_round_of_int [of 0] by simp

lemma np_round_1 [simp]: "np_round 1 = 1"
  using np_round_of_int [of 1] by simp

lemma np_round_low:
  assumes "0 \<le> r" and "r \<le> 1 / 2"
  shows "np_round r = 0"
proof (cases "r = 1 / 2")
  case True
  show ?thesis unfolding True by (rule np_round_half)
next
  case False
  with assms have "\<bar>r - of_int 0\<bar> < 1 / 2" by simp
  then have "np_round r = of_int 0" by (rule np_round_near)
  then show ?thesis by simp
qed

lemma np_round_high:
  assumes "1 / 2 < r" and "r \<le> 1"
  shows "np_round r = 1"
proof -
  from assms have "\<bar>r - of_int 1\<bar> < 1 / 2" by simp
  then have "np_round r = of_int 1" by (rule np_round_near)
  then show ?thesis by simp
qed

lemma exp_minus_small:
  fixes h :: real
  assumes "0 \<le> h" and "h \<le> 1"
  shows "exp (- h) \<le> 1 - h / 2"
proof -
  have "1 + h \<le> exp h" by simp
  then have "1 / exp h \<le> 1 / (1 + h)"
    using assms(1) by (intro divide_left_mono) (simp_all add: add_pos_nonneg)
  also have "\<dots> \<le> 1 - h / 2"
  proof -
    have "0 \<le> h * (1 - h) / 2" using assms by simp
    then have "1 \<le> (1 - h / 2) * (1 + h)" by (simp add: algebra_simps)
    then show ?thesis
      using assms(1) by (simp add: pos_divide_le_eq add_pos_nonneg)
  qed
  finally show ?thesis by (simp add: exp_minus')
qed

lemma pred_positive:
  assumes "1 / 2 ^ 50 \<le> x"
  shows "fround (logistic64 (Fin x)) = Fin 1"
proof -
  have "exp (- x) \<le> exp (- (1 / 2 ^ 50))"
    using assms by simp
  also have "\<dots> \<le> 1 - (1 / 2 ^ 50) / 2"
    by (intro exp_minus_small) simp_all
  finally have ub: "exp (- x) \<le> 1 - 1 / 2 ^ 51" by simp
  from rnd_upper [of "exp (- x)" "1 - 1 / 2 ^ 51"] ub
  obtain t where t: "rnd (exp (- x)) = Fin t" "0 \<le> t" "t \<le> 1 - 1 / 2 ^ 51"
    using repr_a small_le_max [of "1 - 1 / 2 ^ 51"] by auto
  from rnd_between [of 1 "1 + t" "2 - 1 / 2 ^ 51"] t
  obtain d where d: "rnd (1 + t) = Fin d" "1 \<le> d" "d \<le> 2 - 1 / 2 ^ 51"
    using repr_1 repr_b small_le_max [of "2 - 1 / 2 ^ 51"] by auto
  have "1 / 2 + 1 / 2 ^ 53 \<le> 1 / (2 - 1 / 2 ^ 51 :: real)"
    by simp
  also have "\<dots> \<le> 1 / d"
    using d(2,3) by (intro divide_left_mono) simp_all
  finally have lo: "1 / 2 + 1 / 2 ^ 53 \<le> 1 / d" .
  have hi: "1 / d \<le> 1"
    using d(2) by simp
  from rnd_between [of "1 / 2 + 1 / 2 ^ 53" "1 / d" 1] lo hi
  obtain r where r: "rnd (1 / d) = Fin r" "1 / 2 + 1 / 2 ^ 53 \<le> r" "r \<le> 1"
    using repr_c repr_1 small_le_max [of 1] by auto
  have "1 / 2 < r"
    using r(2) by (smt (verit) zero_less_divide_1_iff zero_less_numeral zero_less_power)
  then have "np_round r = 1"
    using r(3) by (rule np_round_high)
  then show ?thesis
    using t(1) d(1,2) r(1) by (simp add: logistic64_def)
qed

lemma pred_nonpositive:
  assumes "x \<le> 0"
  shows "fround (logistic64 (Fin x)) = Fin 0"
proof -
  have one: "1 \<le> exp (- x)" using assms by simp
  from rnd_lower [of 1 "exp (- x)"] one repr_1
  consider "rnd (exp (- x)) = PInf" | t where "rnd (exp (- x)) = Fin t" "1 \<le> t"
    by auto
  then show ?thesis
  proof cases
    case 1
    then show ?thesis by (simp add: logistic64_def)
  next
    case 2
    from rnd_lower [of 2 "1 + t"] 2(2) repr_2
    consider "rnd (1 + t) = PInf" | d where "rnd (1 + t) = Fin d" "2 \<le> d"
      by auto
    then show ?thesis
    proof cases
      case 1
      with 2 show ?thesis by (simp add: logistic64_def)
    next
      case 2
      note d = this
      have "1 / d \<le> 1 / 2" using d(2) by simp
      with rnd_upper [of "1 / d" "1 / 2"] d(2)
      obtain r where r: "rnd (1 / d) = Fin r" "0 \<le> r" "r \<le> 1 / 2"
        using repr_half small_le_max [of "1 / 2"] by auto
      have "np_round r = 0"
        using r(2,3) by (rule np_round_low)
      with \<open>rnd (exp (- x)) = Fin t\<close> d r(1) show ?thesis
        by (simp add: logistic64_def)
    qed
  qed
qed

lemma pred_decided:
  assumes "decided z"
  shows "fround (logistic64 z) = (if positive z then Fin 1 else Fin 0)"
proof (cases z)
  case (Fin x)
  with assms consider "x \<le> 0" | "1 / 2 ^ 50 \<le> x" by auto
  then show ?thesis
  proof cases
    case 1
    then show ?thesis using Fin by (simp add: pred_nonpositive)
  next
    case 2
    then have "0 < x"
      by (smt (verit) zero_less_divide_1_iff zero_less_numeral zero_less_power)
    with 2 show ?thesis using Fin by (simp add: pred_positive)
  qed
next
  case PInf
  then show ?thesis by (simp add: logistic64_def)
next
  case NInf
  then show ?thesis by (simp add: logistic64_def)
next
  case NaN
  with assms show ?thesis by simp
qed

lemma rnd_one_plus:
  assumes "0 \<le> t" and "t \<le> 1 / 2 ^ 54"
  shows "rnd (1 + t) = Fin 1"
proof -
  have "(1::real) / 2 ^ 54 < 1"
    by simp
  with assms(2) have t1: "t < 1" by linarith
  have a1: "2 powi 0 \<le> \<bar>1 + t\<bar>"
    using assms(1) by simp
  have a2: "\<bar>1 + t\<bar> < 2 powi (0 + 1)"
    using assms(1) t1 by simp
  have a3: "- 1022 \<le> (0::int)" by simp
  have e: "expo (1 + t) = 0"
    using a1 a2 a3 by (rule expo_eq)
  have q: "quantum (1 + t) = 1 / 2 ^ 52"
    by (simp add: quantum_def e power_int_minus)
  have "t * 2 ^ 52 \<le> 1 / 2 ^ 54 * 2 ^ 52"
    using assms(2) by (intro mult_right_mono) simp_all
  also have "\<dots> = (1::real) / 4" by simp
  finally have u: "t * 2 ^ 52 \<le> 1 / 4" .
  have l: "0 \<le> t * 2 ^ 52" using assms(1) by simp
  have d: "(1 + t) * 2 ^ 52 - 2 ^ 52 = t * 2 ^ 52"
    by (simp only: distrib_right mult_1 add_diff_cancel_left')
  have "\<bar>(1 + t) * 2 ^ 52 - of_int (2 ^ 52)\<bar> < 1 / 2"
    unfolding of_int_power of_int_numeral d using l u by linarith
  then have "np_round ((1 + t) * 2 ^ 52) = of_int (2 ^ 52)"
    by (rule np_round_near)
  then have r: "np_round ((1 + t) * 2 ^ 52) = 2 ^ 52"
    by (simp only: of_int_power of_int_numeral)
  have "(1 + t) / quantum (1 + t) = (1 + t) * 2 ^ 52"
    unfolding q by simp
  then have "np_round ((1 + t) / quantum (1 + t)) = 2 ^ 52"
    using r by (simp only:)
  then have m: "np_round ((1 + t) / quantum (1 + t)) * quantum (1 + t) = 1"
    by (simp add: q)
  have mx: "1 \<le> max_f64" by (rule small_le_max) simp
  have nz: "1 + t \<noteq> 0" using assms(1) by linarith
  show ?thesis
    unfolding rnd_def Let_def m using nz mx by simp
qed

lemma rnd_below_one:
  assumes "1 - 1 / 2 ^ 55 \<le> x" and "x < 1"
  shows "rnd x = Fin 1"
proof -
  have "(1::real) / 2 ^ 55 \<le> 1 / 2"
    by simp
  with assms(1) have half: "1 / 2 \<le> x" by linarith
  have a1: "2 powi (- 1) \<le> \<bar>x\<bar>"
    using half by (simp add: power_int_minus)
  have a2: "\<bar>x\<bar> < 2 powi (- 1 + 1)"
    using half assms(2) by simp
  have a3: "- 1022 \<le> (- 1::int)" by simp
  have e: "expo x = - 1"
    using a1 a2 a3 by (rule expo_eq)
  have q: "quantum x = 1 / 2 ^ 53"
    by (simp add: quantum_def e power_int_minus)
  have "(1 - 1 / 2 ^ 55) * 2 ^ 53 \<le> x * 2 ^ 53"
    using assms(1) by (intro mult_right_mono) simp_all
  then have l: "2 ^ 53 - 1 / 4 \<le> x * 2 ^ 53"
    by (simp add: algebra_simps)
  have "x * 2 ^ 53 < 1 * 2 ^ 53"
    using assms(2) by (intro mult_strict_right_mono) simp_all
  then have u: "x * 2 ^ 53 < 2 ^ 53" by simp
  have "\<bar>x * 2 ^ 53 - of_int (2 ^ 53)\<bar> < 1 / 2"
    unfolding of_int_power of_int_numeral using l u by linarith
  then have "np_round (x * 2 ^ 53) = of_int (2 ^ 53)"
    by (rule np_round_near)
  then have r: "np_round (x * 2 ^ 53) = 2 ^ 53"
    by (simp only: of_int_power of_int_numeral)
  have "x / quantum x = x * 2 ^ 53"
    unfolding q by simp
  then have "np_round (x / quantum x) = 2 ^ 53"
    using r by (simp only:)
  then have m: "np_round (x / quantum x) * quantum x = 1"
    by (simp add: q)
  have mx: "1 \<le> max_f64" by (rule small_le_max) simp
  have nz: "x \<noteq> 0" using half by linarith
  show ?thesis
    unfolding rnd_def Let_def m using nz mx by simp
qed

lemma logistic64_40: "logistic64 (Fin 40) = Fin 1"
proof -
  have "exp (- 40 :: real) = 1 / exp 40" by (rule exp_minus')
  also have "\<dots> \<le> 1 / 2 ^ 54"
    using exp_40_ge by (intro divide_left_mono) simp_all
  finally have ub: "exp (- 40 :: real) \<le> 1 / 2 ^ 54" .
  have pos: "0 < exp (- 40 :: real)" by (rule exp_gt_zero)
  have le: "(1::real) / 2 ^ 54 \<le> 2 ^ 53"
    by (simp add: pos_divide_le_eq)
  have mx: "(1::real) / 2 ^ 54 \<le> max_f64"
    using le by (rule small_le_max)
  from rnd_upper [OF pos ub repr_small mx]
  obtain t where t: "rnd (exp (- 40)) = Fin t" "0 \<le> t" "t \<le> 1 / 2 ^ 54"
    by (elim exE conjE)
  have one: "rnd (1 + t) = Fin 1"
    using t(2,3) by (rule rnd_one_plus)
  have "logistic64 (Fin 40) = fdiv (Fin 1) (fadd (Fin 1) (fexp (Fin (- 40))))"
    by (simp only: logistic64_def fneg.simps)
  also have "fexp (Fin (- 40)) = Fin t"
    by (simp only: fexp.simps t(1))
  also have "fadd (Fin 1) (Fin t) = Fin 1"
    by (simp only: fadd.simps one)
  also have "fdiv (Fin 1) (Fin 1) = Fin 1"
    by simp
  finally show ?thesis .
qed

lemma rnd_pow2_neg57 [simp]: "rnd (1 / 2 ^ 57) = Fin (1 / 2 ^ 57)"
  using rnd_exact [of "- 57" "1 / 2 ^ 57" "2 ^ 52"] by (simp add: power_int_minus)

lemma rnd_pow2_57 [simp]: "rnd (2 ^ 57) = Fin (2 ^ 57)"
  using rnd_exact [of 57 "2 ^ 57" "2 ^ 52"] by (simp add: power_int_minus)

lemma fadd_zero_left [simp]: "fadd (Fin 0) (Fin x) = rnd x"
  by simp

lemma logistic64_tiny: "logistic64 (Fin (1 / 2 ^ 57)) = Fin (1 / 2)"
proof -
  let ?h = "(1::real) / 2 ^ 57"
  have "1 + (- ?h) \<le> exp (- ?h)" by (rule exp_ge_add_one_self)
  moreover have "?h \<le> 1 / 2 ^ 55" by simp
  ultimately have lo: "1 - 1 / 2 ^ 55 \<le> exp (- ?h)" by linarith
  have hi: "exp (- ?h) < 1" by simp
  have e: "rnd (exp (- ?h)) = Fin 1"
    using lo hi by (rule rnd_below_one)
  have "logistic64 (Fin ?h) = fdiv (Fin 1) (fadd (Fin 1) (fexp (Fin (- ?h))))"
    by (simp only: logistic64_def fneg.simps)
  also have "fexp (Fin (- ?h)) = Fin 1"
    by (simp only: fexp.simps e)
  also have "fadd (Fin 1) (Fin 1) = Fin 2"
    by simp
  also have "fdiv (Fin 1) (Fin 2) = Fin (1 / 2)"
    by simp
  finally show ?thesis .
qed

lemma sigmoid64_elems:
  assumes "d = length w"
  shows "sigmoid64 d X w = Inr (map (\<lambda>r. logistic64 (dot64 r w)) X)"
  using assms by (simp add: sigmoid64_def)

lemma length_scale64 [simp]: "length (scale64 c w) = length w"
  by (simp add: scale64_def)

lemma accuracy64_cong:
  assumes "length w' = length w"
    and "\<forall>r\<in>set X. fround (logistic64 (dot64 r w')) = fround (logistic64 (dot64 r w))"
  shows "accuracy64 d X y w' = accuracy64 d X y w"
proof (cases "d = length w")
  case True
  have s1: "sigmoid64 d X w' = Inr (map (\<lambda>r. logistic64 (dot64 r w')) X)"
    using True assms(1) by (simp add: sigmoid64_def)
  have s2: "sigmoid64 d X w = Inr (map (\<lambda>r. logistic64 (dot64 r w)) X)"
    using True by (simp add: sigmoid64_def)
  have eq: "map fround (map (\<lambda>r. logistic64 (dot64 r w')) X)
      = map fround (map (\<lambda>r. logistic64 (dot64 r w)) X)"
    using assms(2) by simp
  show ?thesis
    unfolding accuracy64_def s1 s2 bindE_Inr Let_def eq by (rule refl)
next
  case False
  then show ?thesis
    using assms(1) by (simp add: accuracy64_def sigmoid64_def)
qed

lemma dot64_single:
  assumes "rnd (a * b) = Fin p" and "rnd p = Fin p"
  shows "dot64 [Fin a] [Fin b] = Fin p"
  using assms by (simp add: dot64_def)

lemma accuracy64_single:
  assumes "length w = d" and "fround (logistic64 (dot64 r w)) = Fin p"
  shows "accuracy64 d [r] [Fin q] w = Inr (if p = q then Fin 1 else Fin 0)"
  using assms by (simp add: accuracy64_def sigmoid64_def)

subsection \<open>The claims\<close>

text \<open>
  Claim C1. On a design matrix \<open>X\<close> of \<open>n > 0\<close> rows and \<open>d\<close> columns, a label vector
  of length \<open>n\<close> and a weight vector of length \<open>d\<close>, the batch branch returns the vector
  whose entry \<open>j\<close> is \<open>- (X\<^sup>T (y - sigmoid(X, w)))\<^sub>j / n\<close> plus the regularization term:
  \<open>lamb * sign(w\<^sub>j)\<close> for \<^verbatim>\<open>'l1'\<close>, \<open>2 * lamb * w\<^sub>j\<close> for \<^verbatim>\<open>'l2'\<close>, and nothing for any
  other norm. (With \<open>n = 0\<close> numpy divides by zero and returns \<^verbatim>\<open>nan\<close>.)
\<close>

theorem gradient_batch_formula:
  assumes "wellformed (Mat d X)" and "length X = n" and "length y = n"
    and "length w = d" and "0 < n"
  shows "gradient (Mat d X) (Vec y) (Vec w) False nrm lam =
         Inr (Vec (map (\<lambda>j.
            - (\<Sum>i<n. X ! i ! j * (y ! i - 1 / (1 + exp (- (\<Sum>k<d. X ! i ! k * w ! k))))) / real n
            + (if nrm = Some ''l1'' then lam * sgn (w ! j)
               else if nrm = Some ''l2'' then 2 * lam * w ! j
               else 0)) [0..<d]))"
proof -
  have ne: "X \<noteq> []" and ly: "length y = length X"
    using assms by auto
  have "(if nrm = Some ''l1'' then map2 (+) (map (\<lambda>x. lam * sgn x) w) (batch_base d X y w)
         else if nrm = Some ''l2'' then map2 (+) (map (\<lambda>x. 2 * lam * x) w) (batch_base d X y w)
         else batch_base d X y w) =
        map (\<lambda>j.
            - (\<Sum>i<n. X ! i ! j * (y ! i - 1 / (1 + exp (- (\<Sum>k<d. X ! i ! k * w ! k))))) / real n
            + (if nrm = Some ''l1'' then lam * sgn (w ! j)
               else if nrm = Some ''l2'' then 2 * lam * w ! j
               else 0)) [0..<d]"
    using assms(1,2,4) ly
    by (intro nth_equalityI) (auto simp: batch_base_nth)
  with gradient_batch_list [OF ly assms(4) ne, of nrm lam] show ?thesis
    by simp
qed

theorem gradient_batch_formula_witness:
  "wellformed (Mat 2 [[1, 2], [3, 4 :: real]]) \<and> length [[1, 2], [3, 4 :: real]] = 2 \<and>
   length [1, 0 :: real] = 2 \<and> length [0, 0 :: real] = 2 \<and> (0::nat) < 2 \<and>
   gradient (Mat 2 [[1, 2], [3, 4]]) (Vec [1, 0]) (Vec [0, 0]) False (Some ''l2'') 3 =
   Inr (Vec [1 / 2, 1 / 2])"
proof -
  have "gradient (Mat 2 [[1, 2], [3, 4]]) (Vec [1, 0]) (Vec [0, 0]) False (Some ''l2'') 3 =
        Inr (Vec [1 / 2, 1 / 2])"
    using gradient_batch_formula [of 2 "[[1, 2], [3, 4]]" 2 "[1, 0]" "[0, 0]" "Some ''l2''" 3]
    by (simp add: lessThan_Suc eval_nat_numeral upt_rec)
  then show ?thesis by simp
qed

text \<open>
  Claim C3. On a non-empty, well-shaped training set and validation set, the loop of \<open>k\<close>
  iterations returns; its final weights are \<open>k\<close> updates \<open>w \<leftarrow> w - epsilon * gradient(X_train,
  Y_train, w)\<close> of the initial weights, each gradient being the batch gradient over the whole
  training set and each update the difference it is written as; after update \<open>i + 1\<close> it has appended the loss and the training accuracy of
  the updated weights and their accuracy on the validation set, so that each history has
  exactly \<open>k\<close> entries; and the weights, the losses and the training accuracies are the
  same for every other validation set.
\<close>

theorem training_loop_runs:
  assumes wft: "wellformed (Mat d Xt)" and lxt: "length Xt = n" and lyt: "length yt = n"
    and n: "0 < n"
    and wfv: "wellformed (Mat d Xv)" and lxv: "length Xv = m" and lyv: "length yv = m"
    and m: "0 < m"
    and lw: "length w0 = d"
  shows "\<exists>st. train_loop (Mat d Xt) yt (Mat d Xv) yv epsilon k
                \<lparr>theta = Vec w0, losses = [], train_accuracies = [], validation_accuracies = []\<rparr>
              = Inr st \<and>
           theta st = Vec ((gd_update (Mat d Xt) yt epsilon ^^ k) w0) \<and>
           length (losses st) = k \<and> length (train_accuracies st) = k \<and>
           length (validation_accuracies st) = k \<and>
           (\<forall>i<k.
              (\<exists>g. gradient (Mat d Xt) (Vec yt) (Vec ((gd_update (Mat d Xt) yt epsilon ^^ i) w0))
                      False None 0 = Inr (Vec g) \<and> length g = d \<and>
                   (gd_update (Mat d Xt) yt epsilon ^^ Suc i) w0 =
                     map2 (\<lambda>a b. a - epsilon * b) ((gd_update (Mat d Xt) yt epsilon ^^ i) w0) g) \<and>
              loss (Mat d Xt) yt (Vec ((gd_update (Mat d Xt) yt epsilon ^^ Suc i) w0)) None 0
                = Inr (losses st ! i) \<and>
              accuracy (Mat d Xt) yt (Vec ((gd_update (Mat d Xt) yt epsilon ^^ Suc i) w0))
                = Inr (train_accuracies st ! i) \<and>
              accuracy (Mat d Xv) yv (Vec ((gd_update (Mat d Xt) yt epsilon ^^ Suc i) w0))
                = Inr (validation_accuracies st ! i)) \<and>
           (\<forall>Xv' yv'. length yv' = length Xv' \<and> Xv' \<noteq> [] \<longrightarrow>
              (\<exists>st'. train_loop (Mat d Xt) yt (Mat d Xv') yv' epsilon k
                        \<lparr>theta = Vec w0, losses = [], train_accuracies = [],
                         validation_accuracies = []\<rparr> = Inr st' \<and>
                     theta st' = theta st \<and> losses st' = losses st \<and>
                     train_accuracies st' = train_accuracies st))"
proof -
  let ?u = "gd_update (Mat d Xt) yt epsilon"
  let ?st0 = "\<lparr>theta = Vec w0, losses = [], train_accuracies = [], validation_accuracies = []\<rparr>"
  have lyt': "length yt = length Xt" and net: "Xt \<noteq> []"
    and lyv': "length yv = length Xv" and nev: "Xv \<noteq> []"
    using lxt lyt n lxv lyv m by auto
  have th0: "theta ?st0 = Vec w0" by simp
  obtain st where run: "train_loop (Mat d Xt) yt (Mat d Xv) yv epsilon k ?st0 = Inr st"
    and th: "theta st = Vec ((?u ^^ k) w0)"
    and ls: "map Inr (losses st) =
             map (\<lambda>i. loss (Mat d Xt) yt (Vec ((?u ^^ Suc i) w0)) None 0) [0..<k]"
    and tas: "map Inr (train_accuracies st) =
             map (\<lambda>i. accuracy (Mat d Xt) yt (Vec ((?u ^^ Suc i) w0))) [0..<k]"
    and vas: "map Inr (validation_accuracies st) =
             map (\<lambda>i. accuracy (Mat d Xv) yv (Vec ((?u ^^ Suc i) w0))) [0..<k]"
    using train_loop_batch [OF wft lyt' net lyv' nev th0 lw, of epsilon k] by auto
  have len: "length (losses st) = k" "length (train_accuracies st) = k"
    "length (validation_accuracies st) = k"
    using arg_cong [OF ls, of length] arg_cong [OF tas, of length] arg_cong [OF vas, of length]
    by simp_all
  have each: "(\<exists>g. gradient (Mat d Xt) (Vec yt) (Vec ((?u ^^ i) w0)) False None 0 = Inr (Vec g)
                    \<and> length g = d
                    \<and> (?u ^^ Suc i) w0 = map2 (\<lambda>a b. a - epsilon * b) ((?u ^^ i) w0) g) \<and>
              loss (Mat d Xt) yt (Vec ((?u ^^ Suc i) w0)) None 0 = Inr (losses st ! i) \<and>
              accuracy (Mat d Xt) yt (Vec ((?u ^^ Suc i) w0)) = Inr (train_accuracies st ! i) \<and>
              accuracy (Mat d Xv) yv (Vec ((?u ^^ Suc i) w0)) = Inr (validation_accuracies st ! i)"
    if i: "i < k" for i
  proof -
    have li: "length ((?u ^^ i) w0) = d"
      using lyt' lw net by (rule length_gd_iterate)
    have g: "\<exists>g. gradient (Mat d Xt) (Vec yt) (Vec ((?u ^^ i) w0)) False None 0 = Inr (Vec g)
                 \<and> length g = d
                 \<and> (?u ^^ Suc i) w0 = map2 (\<lambda>a b. a - epsilon * b) ((?u ^^ i) w0) g"
      using gradient_batch_list [OF lyt' li net, of None 0] gd_update_batch [OF lyt' li net, of epsilon]
      by simp
    have "loss (Mat d Xt) yt (Vec ((?u ^^ Suc i) w0)) None 0 =
          map (\<lambda>i. loss (Mat d Xt) yt (Vec ((?u ^^ Suc i) w0)) None 0) [0..<k] ! i"
      using i by (simp del: funpow.simps)
    also have "\<dots> = map Inr (losses st) ! i"
      by (simp only: ls)
    also have "\<dots> = Inr (losses st ! i)"
      using i len by simp
    finally have l: "loss (Mat d Xt) yt (Vec ((?u ^^ Suc i) w0)) None 0 = Inr (losses st ! i)" .
    have "accuracy (Mat d Xt) yt (Vec ((?u ^^ Suc i) w0)) =
          map (\<lambda>i. accuracy (Mat d Xt) yt (Vec ((?u ^^ Suc i) w0))) [0..<k] ! i"
      using i by (simp del: funpow.simps)
    also have "\<dots> = map Inr (train_accuracies st) ! i"
      by (simp only: tas)
    also have "\<dots> = Inr (train_accuracies st ! i)"
      using i len by simp
    finally have a: "accuracy (Mat d Xt) yt (Vec ((?u ^^ Suc i) w0)) = Inr (train_accuracies st ! i)" .
    have "accuracy (Mat d Xv) yv (Vec ((?u ^^ Suc i) w0)) =
          map (\<lambda>i. accuracy (Mat d Xv) yv (Vec ((?u ^^ Suc i) w0))) [0..<k] ! i"
      using i by (simp del: funpow.simps)
    also have "\<dots> = map Inr (validation_accuracies st) ! i"
      by (simp only: vas)
    also have "\<dots> = Inr (validation_accuracies st ! i)"
      using i len by simp
    finally have v: "accuracy (Mat d Xv) yv (Vec ((?u ^^ Suc i) w0)) = Inr (validation_accuracies st ! i)" .
    from g l a v show ?thesis
      by (intro conjI)
  qed
  have other: "\<exists>st'. train_loop (Mat d Xt) yt (Mat d Xv') yv' epsilon k ?st0 = Inr st' \<and>
                 theta st' = theta st \<and> losses st' = losses st \<and>
                 train_accuracies st' = train_accuracies st"
    if h: "length yv' = length Xv' \<and> Xv' \<noteq> []" for Xv' yv'
  proof -
    from h have lyv'': "length yv' = length Xv'" and nev': "Xv' \<noteq> []"
      by simp_all
    from train_loop_batch [OF wft lyt' net lyv'' nev' th0 lw, of epsilon k]
    obtain st' where run': "train_loop (Mat d Xt) yt (Mat d Xv') yv' epsilon k ?st0 = Inr st'"
      and th': "theta st' = Vec ((?u ^^ k) w0)"
      and ls': "map Inr (losses st') = map Inr (losses ?st0) @
             map (\<lambda>i. loss (Mat d Xt) yt (Vec ((?u ^^ Suc i) w0)) None 0) [0..<k]"
      and tas': "map Inr (train_accuracies st') = map Inr (train_accuracies ?st0) @
             map (\<lambda>i. accuracy (Mat d Xt) yt (Vec ((?u ^^ Suc i) w0))) [0..<k]"
      by blast
    have l1: "map Inr (losses st') =
          map (\<lambda>i. loss (Mat d Xt) yt (Vec ((?u ^^ Suc i) w0)) None 0) [0..<k]"
      using ls' by (simp only: train_state.simps list.map append_Nil)
    have l2: "losses st' = losses st"
      by (rule map_Inr_eq) (rule trans [OF l1 ls [symmetric]])
    have t1: "map Inr (train_accuracies st') =
          map (\<lambda>i. accuracy (Mat d Xt) yt (Vec ((?u ^^ Suc i) w0))) [0..<k]"
      using tas' by (simp only: train_state.simps list.map append_Nil)
    have t2: "train_accuracies st' = train_accuracies st"
      by (rule map_Inr_eq) (rule trans [OF t1 tas [symmetric]])
    show ?thesis
      using run' th' th l2 t2 by (intro exI [of _ st']) simp
  qed
  have e: "\<forall>i<k.
              (\<exists>g. gradient (Mat d Xt) (Vec yt) (Vec ((?u ^^ i) w0)) False None 0 = Inr (Vec g)
                    \<and> length g = d
                    \<and> (?u ^^ Suc i) w0 = map2 (\<lambda>a b. a - epsilon * b) ((?u ^^ i) w0) g) \<and>
              loss (Mat d Xt) yt (Vec ((?u ^^ Suc i) w0)) None 0 = Inr (losses st ! i) \<and>
              accuracy (Mat d Xt) yt (Vec ((?u ^^ Suc i) w0)) = Inr (train_accuracies st ! i) \<and>
              accuracy (Mat d Xv) yv (Vec ((?u ^^ Suc i) w0)) = Inr (validation_accuracies st ! i)"
    using each by (intro allI impI)
  have o: "\<forall>Xv' yv'. length yv' = length Xv' \<and> Xv' \<noteq> [] \<longrightarrow>
              (\<exists>st'. train_loop (Mat d Xt) yt (Mat d Xv') yv' epsilon k ?st0 = Inr st' \<and>
                     theta st' = theta st \<and> losses st' = losses st \<and>
                     train_accuracies st' = train_accuracies st)"
    using other by (intro allI impI)
  show ?thesis
  proof (intro exI [of _ st] conjI)
    show "train_loop (Mat d Xt) yt (Mat d Xv) yv epsilon k ?st0 = Inr st" by (fact run)
    show "theta st = Vec ((?u ^^ k) w0)" by (fact th)
    show "length (losses st) = k" by (fact len)
    show "length (train_accuracies st) = k" by (fact len)
    show "length (validation_accuracies st) = k" by (fact len)
  qed (fact e, fact o)
qed

theorem training_loop_runs_witness:
  "wellformed (Mat 1 [[1 :: real]]) \<and> length [[1 :: real]] = 1 \<and> length [1 :: real] = 1 \<and>
   (0 :: nat) < 1 \<and> wellformed (Mat 1 [[2 :: real]]) \<and> length [[2 :: real]] = 1 \<and>
   length [0 :: real] = 1 \<and> length [0 :: real] = 1 \<and> (1 :: nat) < 2 \<and>
   length [1 :: real] = length [[5 :: real]] \<and> [[5 :: real]] \<noteq> [] \<and>
   (\<exists>st. train_loop (Mat 1 [[1]]) [1] (Mat 1 [[2]]) [0] (1 / 20) 2
           \<lparr>theta = Vec [0], losses = [], train_accuracies = [], validation_accuracies = []\<rparr>
         = Inr st \<and>
         theta st = Vec ((gd_update (Mat 1 [[1]]) [1] (1 / 20) ^^ 2) [0]) \<and>
         length (losses st) = 2 \<and> length (train_accuracies st) = 2 \<and>
         length (validation_accuracies st) = 2 \<and>
         (\<exists>g. gradient (Mat 1 [[1]]) (Vec [1]) (Vec ((gd_update (Mat 1 [[1]]) [1] (1 / 20) ^^ 1) [0]))
                False None 0 = Inr (Vec g) \<and> length g = 1 \<and>
              (gd_update (Mat 1 [[1]]) [1] (1 / 20) ^^ Suc 1) [0] =
                map2 (\<lambda>a b. a - 1 / 20 * b) ((gd_update (Mat 1 [[1]]) [1] (1 / 20) ^^ 1) [0]) g) \<and>
         loss (Mat 1 [[1]]) [1] (Vec ((gd_update (Mat 1 [[1]]) [1] (1 / 20) ^^ Suc 1) [0])) None 0
           = Inr (losses st ! 1) \<and>
         accuracy (Mat 1 [[1]]) [1] (Vec ((gd_update (Mat 1 [[1]]) [1] (1 / 20) ^^ Suc 1) [0]))
           = Inr (train_accuracies st ! 1) \<and>
         accuracy (Mat 1 [[2]]) [0] (Vec ((gd_update (Mat 1 [[1]]) [1] (1 / 20) ^^ Suc 1) [0]))
           = Inr (validation_accuracies st ! 1) \<and>
         (\<exists>st'. train_loop (Mat 1 [[1]]) [1] (Mat 1 [[5]]) [1] (1 / 20) 2
                   \<lparr>theta = Vec [0], losses = [], train_accuracies = [],
                    validation_accuracies = []\<rparr> = Inr st' \<and>
                theta st' = theta st \<and> losses st' = losses st \<and>
                train_accuracies st' = train_accuracies st))"
proof -
  have h: "wellformed (Mat 1 [[1 :: real]])" "length [[1 :: real]] = 1"
    "length [1 :: real] = 1" "(0 :: nat) < 1" "wellformed (Mat 1 [[2 :: real]])"
    "length [[2 :: real]] = 1" "length [0 :: real] = 1" "(0 :: nat) < 1" "length [0 :: real] = 1"
    by simp_all
  have i: "(1 :: nat) < 2" and v: "length [1 :: real] = length [[5 :: real]] \<and> [[5 :: real]] \<noteq> []"
    by simp_all
  let ?u = "gd_update (Mat 1 [[1]]) [1] (1 / 20)"
  let ?st0 = "\<lparr>theta = Vec [0], losses = [], train_accuracies = [], validation_accuracies = []\<rparr>"
  from training_loop_runs [OF h, of "1 / 20" 2]
  obtain st where st:
    "train_loop (Mat 1 [[1]]) [1] (Mat 1 [[2]]) [0] (1 / 20) 2 ?st0 = Inr st \<and>
     theta st = Vec ((?u ^^ 2) [0]) \<and>
     length (losses st) = 2 \<and> length (train_accuracies st) = 2 \<and>
     length (validation_accuracies st) = 2 \<and>
     (\<forall>i<2.
        (\<exists>g. gradient (Mat 1 [[1]]) (Vec [1]) (Vec ((?u ^^ i) [0])) False None 0 = Inr (Vec g) \<and>
             length g = 1 \<and>
             (?u ^^ Suc i) [0] = map2 (\<lambda>a b. a - 1 / 20 * b) ((?u ^^ i) [0]) g) \<and>
        loss (Mat 1 [[1]]) [1] (Vec ((?u ^^ Suc i) [0])) None 0 = Inr (losses st ! i) \<and>
        accuracy (Mat 1 [[1]]) [1] (Vec ((?u ^^ Suc i) [0])) = Inr (train_accuracies st ! i) \<and>
        accuracy (Mat 1 [[2]]) [0] (Vec ((?u ^^ Suc i) [0])) = Inr (validation_accuracies st ! i)) \<and>
     (\<forall>Xv' yv'. length yv' = length Xv' \<and> Xv' \<noteq> [] \<longrightarrow>
        (\<exists>st'. train_loop (Mat 1 [[1]]) [1] (Mat 1 Xv') yv' (1 / 20) 2 ?st0 = Inr st' \<and>
               theta st' = theta st \<and> losses st' = losses st \<and>
               train_accuracies st' = train_accuracies st))" ..
  note run = st [THEN conjunct1]
  note rest = st [THEN conjunct2]
  note th = rest [THEN conjunct1]
  note rest = rest [THEN conjunct2]
  note l1 = rest [THEN conjunct1]
  note rest = rest [THEN conjunct2]
  note l2 = rest [THEN conjunct1]
  note rest = rest [THEN conjunct2]
  note l3 = rest [THEN conjunct1]
  note rest = rest [THEN conjunct2]
  note e = rest [THEN conjunct1, rule_format, OF i]
  note o = rest [THEN conjunct2, rule_format, OF v]
  have body: "train_loop (Mat 1 [[1]]) [1] (Mat 1 [[2]]) [0] (1 / 20) 2 ?st0 = Inr st \<and>
         theta st = Vec ((?u ^^ 2) [0]) \<and>
         length (losses st) = 2 \<and> length (train_accuracies st) = 2 \<and>
         length (validation_accuracies st) = 2 \<and>
         (\<exists>g. gradient (Mat 1 [[1]]) (Vec [1]) (Vec ((?u ^^ 1) [0])) False None 0 = Inr (Vec g) \<and>
              length g = 1 \<and>
              (?u ^^ Suc 1) [0] = map2 (\<lambda>a b. a - 1 / 20 * b) ((?u ^^ 1) [0]) g) \<and>
         loss (Mat 1 [[1]]) [1] (Vec ((?u ^^ Suc 1) [0])) None 0 = Inr (losses st ! 1) \<and>
         accuracy (Mat 1 [[1]]) [1] (Vec ((?u ^^ Suc 1) [0])) = Inr (train_accuracies st ! 1) \<and>
         accuracy (Mat 1 [[2]]) [0] (Vec ((?u ^^ Suc 1) [0])) = Inr (validation_accuracies st ! 1) \<and>
         (\<exists>st'. train_loop (Mat 1 [[1]]) [1] (Mat 1 [[5]]) [1] (1 / 20) 2 ?st0 = Inr st' \<and>
                theta st' = theta st \<and> losses st' = losses st \<and>
                train_accuracies st' = train_accuracies st)"
    using run th l1 l2 l3 e o by (intro conjI) (elim conjE, assumption)+
  have hyps: "wellformed (Mat 1 [[1 :: real]]) \<and> length [[1 :: real]] = 1 \<and> length [1 :: real] = 1 \<and>
   (0 :: nat) < 1 \<and> wellformed (Mat 1 [[2 :: real]]) \<and> length [[2 :: real]] = 1 \<and>
   length [0 :: real] = 1 \<and> length [0 :: real] = 1 \<and> (1 :: nat) < 2 \<and>
   length [1 :: real] = length [[5 :: real]] \<and> [[5 :: real]] \<noteq> []"
    by simp
  from hyps body show ?thesis
    by (elim conjE exE) (intro conjI exI, assumption+)
qed

text \<open>
  As stated, claim C4 fails in float64 arithmetic: at the score 40 the exponential
  \<open>exp (- 40)\<close> is less than half the spacing of the float64 numbers at 1, the sum
  \<open>1 + exp (- 40)\<close> rounds to 1, and \<^verbatim>\<open>sigmoid\<close> returns exactly 1.
\<close>

theorem sigmoid64_saturates: "sigmoid64 1 [[Fin 40]] [Fin 1] = Inr [Fin 1]"
  by (simp add: sigmoid64_def dot64_def logistic64_40)

text \<open>
  Claim C4, as amended. On a matrix of \<open>d\<close> columns and a weight vector of length \<open>d\<close>,
  \<^verbatim>\<open>sigmoid\<close> returns one element for each row. The element is a number of the closed
  interval from 0 to 1 whenever the score of the row is not \<^verbatim>\<open>nan\<close> (finite entries of
  \<open>X\<close> and \<open>w\<close> do not exclude that: products can overflow to infinities of both signs).
  It lies strictly between 0 and 1 when the score is a number of magnitude at most 32.
\<close>

theorem sigmoid64_range:
  assumes "d = length w"
  shows "\<exists>s. sigmoid64 d X w = Inr s \<and> length s = length X \<and>
           (\<forall>i<length X.
              (dot64 (X ! i) w \<noteq> NaN \<longrightarrow> (\<exists>r. s ! i = Fin r \<and> 0 \<le> r \<and> r \<le> 1)) \<and>
              (\<forall>x. dot64 (X ! i) w = Fin x \<and> \<bar>x\<bar> \<le> 32 \<longrightarrow>
                   (\<exists>r. s ! i = Fin r \<and> 0 < r \<and> r < 1)))"
proof -
  let ?s = "map (\<lambda>r. logistic64 (dot64 r w)) X"
  have 1: "sigmoid64 d X w = Inr ?s"
    using assms by (rule sigmoid64_elems)
  have 2: "length ?s = length X"
    by simp
  have 3: "\<forall>i<length X.
              (dot64 (X ! i) w \<noteq> NaN \<longrightarrow> (\<exists>r. ?s ! i = Fin r \<and> 0 \<le> r \<and> r \<le> 1)) \<and>
              (\<forall>x. dot64 (X ! i) w = Fin x \<and> \<bar>x\<bar> \<le> 32 \<longrightarrow>
                   (\<exists>r. ?s ! i = Fin r \<and> 0 < r \<and> r < 1))"
  proof (intro allI impI conjI)
    fix i
    assume "i < length X" and "dot64 (X ! i) w \<noteq> NaN"
    then show "\<exists>r. ?s ! i = Fin r \<and> 0 \<le> r \<and> r \<le> 1"
      using logistic64_range [of "dot64 (X ! i) w"] by simp
  next
    fix i x
    assume "i < length X" and "dot64 (X ! i) w = Fin x \<and> \<bar>x\<bar> \<le> 32"
    then show "\<exists>r. ?s ! i = Fin r \<and> 0 < r \<and> r < 1"
      using logistic64_strict [of x] by simp
  qed
  show ?thesis
    by (intro exI [of _ ?s] conjI 1 2 3)
qed

theorem sigmoid64_range_witness:
  "\<exists>s. sigmoid64 1 [[Fin 1]] [Fin 1] = Inr s \<and> length s = 1 \<and>
       (\<exists>r. s ! 0 = Fin r \<and> 0 < r \<and> r < 1)"
proof -
  from sigmoid64_range [of 1 "[Fin 1]" "[[Fin 1]]"]
  obtain s where s: "sigmoid64 1 [[Fin 1]] [Fin 1] = Inr s" "length s = length [[Fin (1::real)]]"
    and b: "\<forall>i<length [[Fin (1::real)]].
              (dot64 ([[Fin 1]] ! i) [Fin 1] \<noteq> NaN \<longrightarrow> (\<exists>r. s ! i = Fin r \<and> 0 \<le> r \<and> r \<le> 1)) \<and>
              (\<forall>x. dot64 ([[Fin 1]] ! i) [Fin 1] = Fin x \<and> \<bar>x\<bar> \<le> 32 \<longrightarrow>
                   (\<exists>r. s ! i = Fin r \<and> 0 < r \<and> r < 1))"
    by auto
  have d: "dot64 [Fin 1] [Fin 1] = Fin 1"
    by (simp add: dot64_def)
  from b [rule_format, of 0, THEN conjunct2, rule_format, of 1] d
  have "\<exists>r. s ! 0 = Fin r \<and> 0 < r \<and> r < 1"
    by simp
  with s show ?thesis by auto
qed

text \<open>
  Claim C5. With no norm and \<open>lamb = 0\<close> the batch branch returns the unregularized batch
  gradient, and with norm \<^verbatim>\<open>'l2'\<close> and \<open>lamb = 0\<close> it returns the same result.
\<close>

theorem gradient_zero_lambda:
  assumes "wellformed (Mat d X)" and "length X = n" and "length y = n"
    and "length w = d" and "0 < n"
  shows "gradient (Mat d X) (Vec y) (Vec w) False None 0 =
           Inr (Vec (map (\<lambda>j.
             - (\<Sum>i<n. X ! i ! j * (y ! i - 1 / (1 + exp (- (\<Sum>k<d. X ! i ! k * w ! k))))) / real n)
             [0..<d])) \<and>
         gradient (Mat d X) (Vec y) (Vec w) False (Some ''l2'') 0 =
           gradient (Mat d X) (Vec y) (Vec w) False None 0"
proof -
  have ne: "X \<noteq> []" and ly: "length y = length X"
    using assms by auto
  have none: "gradient (Mat d X) (Vec y) (Vec w) False None 0 = Inr (Vec (batch_base d X y w))"
    using gradient_batch_list [OF ly assms(4) ne, of None 0] by simp
  have z: "map2 (+) (map ((*) 0) w) (batch_base d X y w) = batch_base d X y w"
    using assms(4) by (intro nth_equalityI) simp_all
  have l2: "gradient (Mat d X) (Vec y) (Vec w) False (Some ''l2'') 0 =
            Inr (Vec (batch_base d X y w))"
    using gradient_batch_list [OF ly assms(4) ne, of "Some ''l2''" 0] z by simp
  show ?thesis
    using none l2 batch_base_index [OF assms(1) ly assms(4)] assms(2) by simp
qed

theorem gradient_zero_lambda_witness:
  "wellformed (Mat 1 [[2 :: real]]) \<and> length [[2 :: real]] = 1 \<and> length [1 :: real] = 1 \<and>
   length [0 :: real] = 1 \<and> (0::nat) < 1 \<and>
   gradient (Mat 1 [[2]]) (Vec [1]) (Vec [0]) False None 0 = Inr (Vec [- 1]) \<and>
   gradient (Mat 1 [[2]]) (Vec [1]) (Vec [0]) False (Some ''l2'') 0 =
   gradient (Mat 1 [[2]]) (Vec [1]) (Vec [0]) False None 0"
  using gradient_zero_lambda [of 1 "[[2]]" 1 "[1]" "[0]"]
  by simp

text \<open>
  Claim C6. Reordering the rows of \<open>X\<close> and the entries of \<open>y\<close> by the same permutation
  \<open>p\<close> of the row indices leaves the outcome of \<^verbatim>\<open>accuracy\<close> unchanged (also when the
  outcome is an exception: no rows, or a weight vector of the wrong length).
\<close>

theorem accuracy_permutation:
  assumes lx: "length X = n" and ly: "length y = n" and p: "bij_betw p {..<n} {..<n}"
  shows "accuracy (Mat d (map (\<lambda>i. X ! p i) [0..<n])) (map (\<lambda>i. y ! p i) [0..<n]) (Vec w) =
         accuracy (Mat d X) y (Vec w)"
proof (cases "length w = d")
  case False
  then show ?thesis by (simp add: accuracy_bad_width)
next
  case True
  let ?X' = "map (\<lambda>i. X ! p i) [0..<n]" and ?y' = "map (\<lambda>i. y ! p i) [0..<n]"
  have "(\<Sum>i<n. hit (?X' ! i) (?y' ! i) w) = (\<Sum>i<n. hit (X ! p i) (y ! p i) w)"
    by (intro sum.cong) simp_all
  also have "\<dots> = (\<Sum>i<n. hit (X ! i) (y ! i) w)"
    using sum.reindex_bij_betw [OF p, of "\<lambda>i. hit (X ! i) (y ! i) w"] .
  finally have sums: "(\<Sum>i<n. hit (?X' ! i) (?y' ! i) w) = (\<Sum>i<n. hit (X ! i) (y ! i) w)" .
  have "accuracy (Mat d ?X') ?y' (Vec w) =
        (if ?X' = [] then Inl ZeroDivisionError
         else Inr (Np (Scalar ((\<Sum>i<length ?X'. hit (?X' ! i) (?y' ! i) w) / real (length ?X')))))"
    using True by (intro accuracy_rows) simp_all
  moreover have "accuracy (Mat d X) y (Vec w) =
        (if X = [] then Inl ZeroDivisionError
         else Inr (Np (Scalar ((\<Sum>i<length X. hit (X ! i) (y ! i) w) / real (length X)))))"
    using True lx ly by (intro accuracy_rows) simp_all
  ultimately show ?thesis
    using lx sums by auto
qed

theorem accuracy_permutation_witness:
  "length [[1], [- 1 :: real]] = 2 \<and> length [1, 0 :: real] = 2 \<and>
   bij_betw (\<lambda>i. 1 - i) {..<2 :: nat} {..<2} \<and>
   accuracy (Mat 1 [[- 1], [1]]) [0, 1] (Vec [1]) = accuracy (Mat 1 [[1], [- 1]]) [1, 0] (Vec [1])"
proof -
  have b: "bij_betw (\<lambda>i. 1 - i) {..<2 :: nat} {..<2}"
    by (auto simp: bij_betw_def inj_on_def image_def lessThan_Suc eval_nat_numeral)
  have l: "length [[1], [- 1 :: real]] = 2" "length [1, 0 :: real] = 2"
    by simp_all
  from accuracy_permutation [OF l b, of 1 "[1]"] b show ?thesis
    by (simp add: upt_rec eval_nat_numeral)
qed

text \<open>
  As stated, claim C7 fails on one-dimensional weights with a norm: the regularization
  term has the shape \<^verbatim>\<open>(2,)\<close> of \<open>w\<close>, the reshaped term the shape \<^verbatim>\<open>(2, 1)\<close>, and the
  in-place addition is refused.
\<close>

theorem gradient_point_vec_l2_counterexample:
  "gradient (Vec [1, 2]) (Scalar 1) (Vec [0, 0]) True (Some ''l2'') (1 / 2) = Inl ValueError"
  by (simp add: gradient_def sigmoid_Vec_Vec reshape_col_def binop_def bdim_def stretch_def)

text \<open>
  Claim C7, as amended. The single-point branch reshapes its term to a column of
  \<^verbatim>\<open>w.size\<close> rows. With the weights as a column of \<open>d\<close> rows (the docstring of
  \<^verbatim>\<open>sigmoid\<close>: "weights are a column") and a point of \<open>d\<close> features, the result has the
  shape of \<open>w\<close> for every norm. With one-dimensional weights of length \<open>d\<close> and a norm
  other than \<^verbatim>\<open>'l1'\<close> and \<^verbatim>\<open>'l2'\<close>, the result is again a column of \<open>d\<close> rows: as many
  entries as \<open>w\<close>, in a two-dimensional array.
\<close>

theorem gradient_point_shape:
  assumes "length x = length ws"
  shows "(\<exists>g. gradient (Vec x) (Scalar y) (Mat 1 (map (\<lambda>v. [v]) ws)) True nrm lam = Inr g \<and>
              shape g = shape (Mat 1 (map (\<lambda>v. [v]) ws)) \<and> size_of g = length ws) \<and>
         (nrm \<noteq> Some ''l1'' \<and> nrm \<noteq> Some ''l2'' \<longrightarrow>
            (\<exists>g. gradient (Vec x) (Scalar y) (Vec ws) True nrm lam = Inr g \<and>
                  shape g = [length ws, 1] \<and> size_of g = length ws))"
  using assms
  by (auto simp: gradient_point_column gradient_point_vec_plain simp del: One_nat_def)

theorem gradient_point_shape_witness:
  "length [1, 2 :: real] = length [0, 0 :: real] \<and>
   (\<exists>g. gradient (Vec [1, 2]) (Scalar 1) (Mat 1 [[0], [0]]) True (Some ''l2'') (1 / 2) = Inr g \<and>
        shape g = [2, 1] \<and> size_of g = 2) \<and>
   (\<exists>g. gradient (Vec [1, 2]) (Scalar 1) (Vec [0, 0]) True None 0 = Inr g \<and>
        shape g = [2, 1] \<and> size_of g = 2)"
proof -
  have h: "length [1, 2 :: real] = length [0, 0 :: real]"
    by simp
  from gradient_point_shape [OF h, of 1 "Some ''l2''" "1 / 2"]
  have a: "\<exists>g. gradient (Vec [1, 2]) (Scalar 1) (Mat 1 [[0], [0]]) True (Some ''l2'') (1 / 2) = Inr g \<and>
        shape g = [2, 1] \<and> size_of g = 2"
    by (simp add: numeral_2_eq_2)
  from gradient_point_shape [OF h, of 1 None 0]
  have b: "\<exists>g. gradient (Vec [1, 2]) (Scalar 1) (Vec [0, 0]) True None 0 = Inr g \<and>
        shape g = [2, 1] \<and> size_of g = 2"
    by (simp add: numeral_2_eq_2)
  from h a b show ?thesis by blast
qed

text \<open>
  Claim C8. The initial weights have as many entries as the design matrix has columns, the
  weights after each of the first \<open>k\<close> iterations still do, and one update \<open>w - epsilon *
  gradient(X, y, w)\<close> of weights of that length returns weights of that length.
\<close>

theorem weight_length_invariant:
  assumes wft: "wellformed (Mat d Xt)" and lxt: "length Xt = n" and lyt: "length yt = n"
    and n: "0 < n"
    and wfv: "wellformed (Mat d Xv)" and lxv: "length Xv = m" and lyv: "length yv = m"
    and m: "0 < m"
  shows "shape1 (Mat d Xt) = Inr d \<and>
         (\<forall>j\<le>k. \<exists>st ws. train (Mat d Xt) yt (Mat d Xv) yv draws epsilon j = Inr st \<and>
                   theta st = Vec ws \<and> length ws = d) \<and>
         (\<forall>w. length w = d \<longrightarrow>
            (\<exists>g w'. gradient (Mat d Xt) (Vec yt) (Vec w) False None 0 = Inr g \<and>
                    binop (-) (Vec w) (amap (\<lambda>x. epsilon * x) g) = Inr (Vec w') \<and>
                    length w' = d))"
proof (intro conjI allI impI)
  show "shape1 (Mat d Xt) = Inr d" by simp
next
  have lyt': "length yt = length Xt" and net: "Xt \<noteq> []"
    and lyv': "length yv = length Xv" and nev: "Xv \<noteq> []"
    using lxt lyt n lxv lyv m by auto
  fix j
  let ?st0 = "\<lparr>theta = Vec (map draws [0..<d]), losses = [], train_accuracies = [],
               validation_accuracies = []\<rparr>"
  have th0: "theta ?st0 = Vec (map draws [0..<d])" by simp
  have l0: "length (map draws [0..<d]) = d" by simp
  from train_loop_batch [OF wft lyt' net lyv' nev th0 l0, of epsilon j]
  obtain st where "train_loop (Mat d Xt) yt (Mat d Xv) yv epsilon j ?st0 = Inr st"
    and "theta st = Vec ((gd_update (Mat d Xt) yt epsilon ^^ j) (map draws [0..<d]))"
    and "length ((gd_update (Mat d Xt) yt epsilon ^^ j) (map draws [0..<d])) = d"
    by blast
  then show "\<exists>st ws. train (Mat d Xt) yt (Mat d Xv) yv draws epsilon j = Inr st \<and>
                   theta st = Vec ws \<and> length ws = d"
    by (simp add: train_def)
next
  have lyt': "length yt = length Xt" and net: "Xt \<noteq> []"
    using lxt lyt n by auto
  fix w :: "real list"
  assume lw: "length w = d"
  have g: "gradient (Mat d Xt) (Vec yt) (Vec w) False None 0 = Inr (Vec (batch_base d Xt yt w))"
    using gradient_batch_list [OF lyt' lw net, of None 0] by simp
  have "binop (-) (Vec w) (amap (\<lambda>x. epsilon * x) (Vec (batch_base d Xt yt w))) =
        Inr (Vec (map2 (-) w (map (\<lambda>x. epsilon * x) (batch_base d Xt yt w))))"
    using lw by (simp add: binop_Vec_Vec)
  moreover have "length (map2 (-) w (map (\<lambda>x. epsilon * x) (batch_base d Xt yt w))) = d"
    using lw by simp
  ultimately show "\<exists>g w'. gradient (Mat d Xt) (Vec yt) (Vec w) False None 0 = Inr g \<and>
                    binop (-) (Vec w) (amap (\<lambda>x. epsilon * x) g) = Inr (Vec w') \<and>
                    length w' = d"
    using g by blast
qed

theorem weight_length_invariant_witness:
  "wellformed (Mat 2 [[1, 2 :: real]]) \<and> length [[1, 2 :: real]] = 1 \<and>
   length [1 :: real] = 1 \<and> (0 :: nat) < 1 \<and>
   wellformed (Mat 2 [[3, 4 :: real]]) \<and> length [[3, 4 :: real]] = 1 \<and>
   length [0 :: real] = 1 \<and> (3 :: nat) \<le> 3 \<and> length [5, 6 :: real] = 2 \<and>
   (\<exists>st ws. train (Mat 2 [[1, 2]]) [1] (Mat 2 [[3, 4]]) [0] (\<lambda>j. 0) (1 / 20) 3 = Inr st \<and>
            theta st = Vec ws \<and> length ws = 2) \<and>
   (\<exists>g w'. gradient (Mat 2 [[1, 2]]) (Vec [1]) (Vec [5, 6]) False None 0 = Inr g \<and>
           binop (-) (Vec [5, 6]) (amap (\<lambda>x. 1 / 20 * x) g) = Inr (Vec w') \<and> length w' = 2)"
proof -
  have h: "wellformed (Mat 2 [[1, 2 :: real]])" "length [[1, 2 :: real]] = 1"
    "length [1 :: real] = 1" "(0 :: nat) < 1" "wellformed (Mat 2 [[3, 4 :: real]])"
    "length [[3, 4 :: real]] = 1" "length [0 :: real] = 1" "(0 :: nat) < 1"
    by simp_all
  have j: "(3 :: nat) \<le> 3" and l: "length [5, 6 :: real] = 2"
    by simp_all
  note t = weight_length_invariant [OF h, of 3 "\<lambda>j. 0" "1 / 20"]
  from t j have "\<exists>st ws. train (Mat 2 [[1, 2]]) [1] (Mat 2 [[3, 4]]) [0] (\<lambda>j. 0) (1 / 20) 3 = Inr st \<and>
            theta st = Vec ws \<and> length ws = 2"
    by blast
  moreover from t l have "\<exists>g w'. gradient (Mat 2 [[1, 2]]) (Vec [1]) (Vec [5, 6]) False None 0 = Inr g \<and>
           binop (-) (Vec [5, 6]) (amap (\<lambda>x. 1 / 20 * x) g) = Inr (Vec w') \<and> length w' = 2"
    by blast
  ultimately show ?thesis
    using h j l by blast
qed

text \<open>
  Claim C9. A norm that is neither the string \<^verbatim>\<open>'l1'\<close> nor \<^verbatim>\<open>'l2'\<close> makes \<^verbatim>\<open>gradient\<close>
  and \<^verbatim>\<open>loss\<close> behave as with no norm and \<open>lamb = 0\<close>, whatever \<open>lamb\<close> is; on a
  well-shaped batch both return a value.
\<close>

theorem norm_other_ignored:
  assumes "nrm \<noteq> Some ''l1''" and "nrm \<noteq> Some ''l2''"
  shows "gradient X y w onept nrm lam = gradient X y w onept None 0 \<and>
         loss X ys w nrm lam = loss X ys w None 0 \<and>
         (wellformed (Mat d M) \<and> M \<noteq> [] \<and> length v = length M \<and> length u = d \<longrightarrow>
            (\<exists>g. gradient (Mat d M) (Vec v) (Vec u) False nrm lam = Inr (Vec g) \<and> length g = d) \<and>
            (\<exists>l. loss (Mat d M) v (Vec u) nrm lam = Inr (Np (Scalar l))))"
proof (intro conjI impI)
  show "gradient X y w onept nrm lam = gradient X y w onept None 0"
    using assms by (simp add: gradient_def)
  show "loss X ys w nrm lam = loss X ys w None 0"
    using assms by (simp add: loss_def)
next
  assume h: "wellformed (Mat d M) \<and> M \<noteq> [] \<and> length v = length M \<and> length u = d"
  then show "\<exists>g. gradient (Mat d M) (Vec v) (Vec u) False nrm lam = Inr (Vec g) \<and> length g = d"
    using assms gradient_batch_list [of v M u d nrm lam] by simp
next
  assume h: "wellformed (Mat d M) \<and> M \<noteq> [] \<and> length v = length M \<and> length u = d"
  then show "\<exists>l. loss (Mat d M) v (Vec u) nrm lam = Inr (Np (Scalar l))"
    using loss_rows [of d M v u nrm lam] by simp
qed

theorem norm_other_ignored_witness:
  "Some ''L1'' \<noteq> Some ''l1'' \<and> Some ''L1'' \<noteq> Some ''l2'' \<and>
   gradient (Mat 1 [[2]]) (Vec [1]) (Vec [3]) False (Some ''L1'') 7 =
     gradient (Mat 1 [[2]]) (Vec [1]) (Vec [3]) False None 0 \<and>
   loss (Mat 1 [[2]]) [1] (Vec [3]) (Some ''L1'') 7 = loss (Mat 1 [[2]]) [1] (Vec [3]) None 0 \<and>
   (\<exists>g. gradient (Mat 1 [[2]]) (Vec [1]) (Vec [3]) False (Some ''L1'') 7 = Inr (Vec g) \<and> length g = 1) \<and>
   (\<exists>l. loss (Mat 1 [[2]]) [1] (Vec [3]) (Some ''L1'') 7 = Inr (Np (Scalar l)))"
proof -
  have a: "Some ''L1'' \<noteq> Some ''l1''" and b: "Some ''L1'' \<noteq> Some ''l2''"
    by simp_all
  have c: "wellformed (Mat 1 [[2::real]]) \<and> [[2::real]] \<noteq> [] \<and>
           length [1::real] = length [[2::real]] \<and> length [3::real] = 1"
    by simp
  from norm_other_ignored [OF a b, of "Mat 1 [[2]]" "Vec [1]" "Vec [3]" False 7 "[1]" 1 "[[2]]" "[1]" "[3]"] c a b
  show ?thesis by blast
qed




end
